theory Spec2Isabelle
  imports Complex_Main "HOL-Library.Log_Nat"
begin

section \<open>Host numbers: the IEEE doubles of the width patch\<close>

text \<open>
  The paragraph-width patch of \<open>cloneCSSStyle\<close> computes with JavaScript Numbers:
  \<open>parseFloat\<close>, \<open>% 1\<close>, \<open>> 0.9\<close>, \<open>+= 1\<close>, \<open>Math.ceil\<close> and the
  conversion of the result to a string inside a template literal. A Number is an IEEE 754
  double; a finite one is carried here as the exact rational it denotes (the sign of zero
  is not tracked: no operation used below tells the two zeros apart).
\<close>

datatype jsnum = NaN | Infinity bool | Fin rat

text \<open>\<open>Infinity True\<close> is \<open>+Infinity\<close>, \<open>Infinity False\<close> is \<open>-Infinity\<close>.\<close>

definition pow2 :: "int \<Rightarrow> rat" where
  "pow2 e = (if 0 \<le> e then 2 ^ nat e else 1 / 2 ^ nat (- e))"

definition pow10 :: "int \<Rightarrow> rat" where
  "pow10 e = (if 0 \<le> e then 10 ^ nat e else 1 / 10 ^ nat (- e))"

text \<open>The binary exponent of a positive rational: \<open>pow2 e \<le> x < pow2 (e + 1)\<close>.\<close>

definition ilog2 :: "rat \<Rightarrow> int" where
  "ilog2 x = (case quotient_of x of (p, q) \<Rightarrow>
     (let e = bitlen p - bitlen q in if pow2 e \<le> x then e else e - 1))"

definition round_half_even :: "rat \<Rightarrow> int" where
  "round_half_even x =
     (let f = \<lfloor>x\<rfloor>; d = x - of_int f
      in if d < 1 / 2 then f else if 1 / 2 < d then f + 1
         else if even f then f else f + 1)"

text \<open>
  Rounding of an exact value to the nearest double, ties to even: 53 significant bits,
  gradual underflow below \<open>2^-1022\<close>, overflow to infinity from \<open>2^1024\<close>
  (which only a value with binary exponent 1023 or more can reach).
\<close>

definition to_double :: "rat \<Rightarrow> jsnum" where
  "to_double x =
     (if x = 0 then Fin 0
      else let a = \<bar>x\<bar>;
               e = max (ilog2 a) (- 1022);
               ulp = pow2 (e - 52);
               r = of_int (round_half_even (a / ulp)) * ulp
           in if e < 1023 then Fin (if 0 < x then r else - r)
              else if pow2 1024 \<le> r then Infinity (0 < x)
              else Fin (if 0 < x then r else - r))"

subsection \<open>parseFloat\<close>

definition isDigit :: "char \<Rightarrow> bool" where
  "isDigit c = (let n = (of_char c :: int) in 48 \<le> n \<and> n \<le> 57)"

definition isWhiteSpace :: "char \<Rightarrow> bool" where
  "isWhiteSpace c = (let n = (of_char c :: int) in n = 32 \<or> (9 \<le> n \<and> n \<le> 13))"

fun digits_value :: "int \<Rightarrow> string \<Rightarrow> int" where
  "digits_value acc [] = acc"
| "digits_value acc (c # cs) = digits_value (10 * acc + (of_char c - 48)) cs"

text \<open>
  The exponent part \<open>e\<close>, \<open>e+\<close> or \<open>e-\<close> followed by digits; it counts only when at
  least one digit follows.
\<close>

definition exponent_part :: "string \<Rightarrow> int" where
  "exponent_part s =
     (case s of
        [] \<Rightarrow> 0
      | c # t \<Rightarrow>
          if c = CHR ''e'' \<or> c = CHR ''E'' then
            (case t of
               [] \<Rightarrow> 0
             | d # u \<Rightarrow>
                 if d = CHR ''+'' then
                   (if takeWhile isDigit u = [] then 0
                    else digits_value 0 (takeWhile isDigit u))
                 else if d = CHR ''-'' then
                   (if takeWhile isDigit u = [] then 0
                    else - digits_value 0 (takeWhile isDigit u))
                 else if takeWhile isDigit t = [] then 0
                 else digits_value 0 (takeWhile isDigit t))
          else 0)"

definition starts_with :: "string \<Rightarrow> string \<Rightarrow> bool" where
  "starts_with p s = (take (length p) s = p)"

text \<open>
  \<open>parseFloat\<close>: leading white space is skipped, then the longest prefix that is a
  decimal literal is read (sign, \<open>Infinity\<close>, digits, fraction, exponent); with no such
  prefix the result is \<open>NaN\<close>. Strings are byte strings here, so only the ASCII white
  space characters are skipped.
\<close>

definition parseFloat :: "string \<Rightarrow> jsnum" where
  "parseFloat str =
     (let s1 = dropWhile isWhiteSpace str;
          neg = (case s1 of [] \<Rightarrow> False | c # _ \<Rightarrow> c = CHR ''-'');
          s2 = (case s1 of [] \<Rightarrow> []
                | c # t \<Rightarrow> if c = CHR ''-'' \<or> c = CHR ''+'' then t else s1)
      in if starts_with ''Infinity'' s2 then Infinity (\<not> neg)
         else
           let ip = takeWhile isDigit s2;
               r1 = dropWhile isDigit s2;
               fp = (case r1 of [] \<Rightarrow> []
                     | c # t \<Rightarrow> if c = CHR ''.'' then takeWhile isDigit t else []);
               r2 = (case r1 of [] \<Rightarrow> []
                     | c # t \<Rightarrow> if c = CHR ''.'' then dropWhile isDigit t else r1)
           in if ip = [] \<and> fp = [] then NaN
              else
                let m = of_int (digits_value 0 (ip @ fp)) *
                        pow10 (exponent_part r2 - int (length fp))
                in to_double (if neg then - m else m))"

subsection \<open>The arithmetic the patch uses\<close>

text \<open>\<open>a % b\<close>: the remainder has the sign of the dividend and is exact.\<close>

definition js_rem :: "jsnum \<Rightarrow> jsnum \<Rightarrow> jsnum" where
  "js_rem a b =
     (case a of
        NaN \<Rightarrow> NaN
      | Infinity _ \<Rightarrow> NaN
      | Fin x \<Rightarrow>
          (case b of
             NaN \<Rightarrow> NaN
           | Infinity _ \<Rightarrow> Fin x
           | Fin y \<Rightarrow>
               if y = 0 then NaN
               else let q = x / y;
                        t = (if 0 \<le> q then \<lfloor>q\<rfloor> else \<lceil>q\<rceil>)
                    in Fin (x - y * of_int t)))"

definition js_gt :: "jsnum \<Rightarrow> jsnum \<Rightarrow> bool" where
  "js_gt a b =
     (case a of
        NaN \<Rightarrow> False
      | Infinity pa \<Rightarrow>
          (case b of NaN \<Rightarrow> False | Infinity pb \<Rightarrow> pa \<and> \<not> pb | Fin _ \<Rightarrow> pa)
      | Fin x \<Rightarrow>
          (case b of NaN \<Rightarrow> False | Infinity pb \<Rightarrow> \<not> pb | Fin y \<Rightarrow> y < x))"

definition js_add :: "jsnum \<Rightarrow> jsnum \<Rightarrow> jsnum" where
  "js_add a b =
     (case a of
        NaN \<Rightarrow> NaN
      | Infinity pa \<Rightarrow>
          (case b of
             NaN \<Rightarrow> NaN
           | Infinity pb \<Rightarrow> if pa = pb then Infinity pa else NaN
           | Fin _ \<Rightarrow> Infinity pa)
      | Fin x \<Rightarrow>
          (case b of
             NaN \<Rightarrow> NaN
           | Infinity pb \<Rightarrow> Infinity pb
           | Fin y \<Rightarrow> to_double (x + y)))"

text \<open>\<open>Math.ceil\<close> is exact; its result is an integer, \<open>NaN\<close> or an infinity.\<close>

datatype jsint = IntNaN | IntInfinity bool | IntFin int

definition Math_ceil :: "jsnum \<Rightarrow> jsint" where
  "Math_ceil a =
     (case a of NaN \<Rightarrow> IntNaN | Infinity p \<Rightarrow> IntInfinity p | Fin x \<Rightarrow> IntFin \<lceil>x\<rceil>)"

subsection \<open>Number to string, for the integers \<open>Math.ceil\<close> returns\<close>

fun digit_string :: "nat \<Rightarrow> int \<Rightarrow> string" where
  "digit_string 0 n = []"
| "digit_string (Suc k) n = digit_string k (n div 10) @ [char_of (48 + n mod 10)]"

text \<open>\<open>digit_string k n\<close> are the last \<open>k\<close> decimal digits of \<open>n\<close>.\<close>

function decimal_length :: "int \<Rightarrow> nat" where
  "decimal_length n = (if n < 10 then 1 else Suc (decimal_length (n div 10)))"
  by pat_completeness auto
termination
  by (relation "measure nat") auto

definition string_of_int :: "int \<Rightarrow> string" where
  "string_of_int n = digit_string (decimal_length n) n"

text \<open>
  \<open>Number::toString\<close> prints the shortest digit string \<open>s\<close> (of \<open>k\<close> digits, for the
  least \<open>k\<close>) such that \<open>s * 10^(n - k)\<close> reads back as the same double, the \<open>s\<close> closest
  to the value when several fit. \<open>shortest_candidate x n k\<close> looks for such an \<open>s\<close> among
  the two \<open>k\<close>-digit numbers around \<open>x\<close>, where \<open>n\<close> is the number of digits of \<open>x\<close>;
  when the upper one is \<open>10^k\<close>, the value is a power of ten with one digit more than
  \<open>x\<close>.
\<close>

definition shortest_candidate :: "int \<Rightarrow> nat \<Rightarrow> nat \<Rightarrow> (nat \<times> int) option" where
  "shortest_candidate x n k =
     (let sc = 10 ^ (n - k);
          lo = x div sc;
          hi = lo + 1;
          ok_lo = (to_double (of_int (lo * sc)) = Fin (of_int x));
          ok_hi = (to_double (of_int (hi * sc)) = Fin (of_int x));
          up = (if hi < 10 ^ k then (n, hi) else (Suc n, hi div 10))
      in if ok_lo \<and> ok_hi then
           Some (if x - lo * sc < hi * sc - x then (n, lo)
                 else if hi * sc - x < x - lo * sc then up
                 else if even lo then (n, lo) else up)
         else if ok_lo then Some (n, lo)
         else if ok_hi then Some up
         else None)"

text \<open>The triple \<open>(n, k, s)\<close> of \<open>Number::toString\<close>, trying \<open>k\<close> from 1 upwards.\<close>

fun shortest_digits :: "int \<Rightarrow> nat \<Rightarrow> nat \<Rightarrow> nat \<Rightarrow> nat \<times> nat \<times> int" where
  "shortest_digits x n k 0 = (n, n, x)"
| "shortest_digits x n k (Suc fuel) =
     (case shortest_candidate x n k of
        Some (n', s) \<Rightarrow> (n', k, s)
      | None \<Rightarrow> shortest_digits x n (Suc k) fuel)"

text \<open>
  For an integer, \<open>k \<le> n\<close>: up to \<open>n = 21\<close> the digits of \<open>s\<close> are printed, followed by
  \<open>n - k\<close> zeros; beyond, the first digit, the others after a point, and the exponent
  \<open>n - 1\<close>.
\<close>

definition ToString :: "jsint \<Rightarrow> string" where
  "ToString v =
     (case v of
        IntNaN \<Rightarrow> ''NaN''
      | IntInfinity p \<Rightarrow> (if p then ''Infinity'' else ''-Infinity'')
      | IntFin i \<Rightarrow>
          (if i < 0 then ''-'' else []) @
          (case shortest_digits \<bar>i\<bar> (decimal_length \<bar>i\<bar>) 1 (decimal_length \<bar>i\<bar> - 1) of
             (n, k, s) \<Rightarrow>
               (let ds = digit_string k s in
                if n \<le> 21 then ds @ replicate (n - k) (CHR ''0'')
                else take 1 ds @ (if k = 1 then [] else CHR ''.'' # drop 1 ds) @
                     ''e+'' @ string_of_int (int n - 1))))"

section \<open>The document: live nodes, the store of DOM objects, the trace\<close>

text \<open>
  Every DOM object lives in a store at an address. The live tree that \<open>cloneNode\<close>
  walks is given as a finite tree of source nodes, as a DOM tree is: each node carries
  what the getters of the code read from it. The clones are objects the operation creates
  in the store; every mutating DOM call of the code is a write to the store at the address
  of its receiver.
\<close>

type_synonym addr = nat

text \<open>
  The classes the code tests with \<open>instanceof\<close>, each node belonging to the most
  specific one. \<open>OtherElement\<close> is an element with no \<open>style\<close> property (neither HTML nor
  SVG); \<open>NonElement\<close> is a text node, a comment or any other node that is no element.
\<close>

datatype node_class =
    HTMLCanvasElement | HTMLVideoElement | HTMLTextAreaElement | HTMLInputElement
  | HTMLImageElement | OtherHTMLElement | SVGElement | OtherElement | NonElement

definition instanceof_Element :: "node_class \<Rightarrow> bool" where
  "instanceof_Element k = (k \<noteq> NonElement)"

definition has_style :: "node_class \<Rightarrow> bool" where
  "has_style k = (k \<noteq> NonElement \<and> k \<noteq> OtherElement)"

record dom =
  nodeClass :: node_class
  tagName :: "string option"
  attributes :: "(string \<times> string) list"
  nodeValue :: "string option"

text \<open>
  An object of the store: its own data, its children (addresses, in order), and the markup
  last assigned through the \<open>innerHTML\<close> setter, if any.
\<close>

record obj = dom +
  children :: "addr list"
  innerHTML :: "string option"

text \<open>
  The computed style of a node, as \<open>getComputedStyle\<close> exposes it: the serialized
  \<open>cssText\<close> (empty on hosts that do not provide it) and the declarations
  (name, value, priority) in the order the style lists its property names.
\<close>

record computed_style =
  cssText :: string
  declarations :: "(string \<times> string \<times> string) list"

text \<open>
  What the code reads from a live node: its class, tag name, attributes and character data,
  its address in the store, \<open>poster\<close>, the result of \<open>toDataURL()\<close>, the live
  \<open>value\<close> of a form control and its computed style. The getters are taken to return:
  a canvas is one whose pixels the page may read.
\<close>

record source_props = dom +
  ident :: addr
  poster :: string
  toDataURL :: string
  currentValue :: string
  computedStyle :: computed_style

text \<open>
  A source node with its literal children, the children of its shadow root (\<open>None\<close>:
  \<open>shadowRoot\<close> is null) and the nodes \<open>assignedNodes()\<close> returns (\<open>None\<close>: the
  node has no such method).
\<close>

datatype snode =
  SNode (props: source_props) (childNodes: "snode list")
        (shadowRoot: "snode list option") (assignedNodes: "snode list option")

datatype failure = Rejected string

text \<open>
  The trace records what the operation does, in order: cloning of a source node begins
  (\<open>Enter\<close>) and resolves with its clone (\<open>Exit\<close>), a collaborator is invoked and
  resolves or rejects (\<open>Fetch\<close>, \<open>Decode\<close>), a clone is appended to its parent clone
  (\<open>Append\<close>). It is an observer only: nothing reads it.
\<close>

datatype event =
    Enter addr
  | Exit addr addr
  | Fetch string "failure option"
  | Decode string "failure option"
  | Append addr addr

record state =
  heap :: "addr \<Rightarrow> obj option"
  nxt :: addr
  trace :: "event list"

text \<open>
  A promise of the code is a function of the state it starts in that gives its outcome,
  a rejection (\<open>Inl\<close>) or the value it resolves with (\<open>Inr\<close>), and the state it
  leaves. A \<open>then\<close> of the code runs its callback in the state the promise before it
  has left, and only when that promise resolved: a rejection passes through the rest of
  the chain (the code has no \<open>catch\<close>).
\<close>

type_synonym 'a promise = "state \<Rightarrow> (failure + 'a) \<times> state"

text \<open>
  \<open>Options\<close>: the optional filter; its other fields are read by the collaborators only.
\<close>

record options =
  filter_fn :: "(snode \<Rightarrow> bool) option"

text \<open>
  Modelled from the spec: the collaborators \<open>cloneNode.ts\<close> imports
  (\<open>clonePseudoElements\<close>, \<open>getBlobFromURL\<close>, \<open>createImage\<close>, \<open>getMimeType\<close>,
  \<open>makeDataUrl\<close>) are not in this file; they are parameters here, typed by the
  contracts the spec gives. \<open>clonePseudoElements(source, clone)\<close> "mutates clone in place"
  and does not fail; \<open>getBlobFromURL(url, options)\<close> and \<open>createImage(dataURL)\<close> resolve
  or reject; \<open>getMimeType(url)\<close> is a string or undefined; \<open>makeDataUrl(blob, mime)\<close> is
  a string. A blob is carried as a string.

  The last two fields are the two writes of the code through \<open>clonedNode.style\<close>. The host
  parses what it is given into the declarations it knows and keeps the \<open>style\<close> attribute
  as their serialization: \<open>style_cssText t\<close> is the attribute after \<open>style.cssText = t\<close>,
  and \<open>style_setProperty old name value priority\<close> is the attribute after
  \<open>style.setProperty(name, value, priority)\<close> on a node whose attribute was \<open>old\<close>
  (\<open>None\<close>: it had none). Which declarations a host knows and how it prints them is not
  in the code, so both are parameters.
\<close>

record collab =
  clonePseudoElements :: "snode \<Rightarrow> obj \<Rightarrow> obj"
  getBlobFromURL :: "string \<Rightarrow> options \<Rightarrow> failure + (string \<times> string)"
  createImage :: "string \<Rightarrow> failure + obj"
  getMimeType :: "string \<Rightarrow> string option"
  makeDataUrl :: "string \<Rightarrow> string \<Rightarrow> string"
  style_cssText :: "string \<Rightarrow> string"
  style_setProperty :: "string option \<Rightarrow> string \<Rightarrow> string \<Rightarrow> string \<Rightarrow> string"

subsection \<open>DOM operations on the store\<close>

definition emit :: "event \<Rightarrow> state \<Rightarrow> state" where
  "emit e s = s\<lparr>trace := trace s @ [e]\<rparr>"

definition alloc :: "obj \<Rightarrow> state \<Rightarrow> addr \<times> state" where
  "alloc ob s = (nxt s, s\<lparr>heap := (heap s)(nxt s \<mapsto> ob), nxt := Suc (nxt s)\<rparr>)"

definition update_obj :: "addr \<Rightarrow> (obj \<Rightarrow> obj) \<Rightarrow> state \<Rightarrow> state" where
  "update_obj a f s = s\<lparr>heap := (heap s)(a := map_option f (heap s a))\<rparr>"

text \<open>\<open>node.cloneNode(false)\<close>: a new object with the node's own data and no children.\<close>

definition shallow_copy :: "snode \<Rightarrow> obj" where
  "shallow_copy node =
     \<lparr>nodeClass = nodeClass (props node), tagName = tagName (props node),
      attributes = attributes (props node), nodeValue = nodeValue (props node),
      children = [], innerHTML = None\<rparr>"

definition cloneNode_false :: "snode \<Rightarrow> state \<Rightarrow> addr \<times> state" where
  "cloneNode_false node s = alloc (shallow_copy node) s"

text \<open>
  \<open>parent.appendChild(child)\<close>: the child is removed from the children of whatever
  object holds it, and becomes the last child of \<open>parent\<close>.
\<close>

definition appendChild :: "addr \<Rightarrow> addr \<Rightarrow> state \<Rightarrow> state" where
  "appendChild parent child s =
     emit (Append parent child)
       (s\<lparr>heap := (\<lambda>a. map_option
           (\<lambda>ob. ob\<lparr>children :=
              removeAll child (children ob) @ (if a = parent then [child] else [])\<rparr>)
           (heap s a))\<rparr>)"

fun set_attr :: "string \<Rightarrow> string \<Rightarrow> (string \<times> string) list \<Rightarrow> (string \<times> string) list" where
  "set_attr name v [] = [(name, v)]"
| "set_attr name v ((n, w) # rest) =
     (if n = name then (n, v) # rest else (n, w) # set_attr name v rest)"

definition setAttribute :: "string \<Rightarrow> string \<Rightarrow> obj \<Rightarrow> obj" where
  "setAttribute name v ob = ob\<lparr>attributes := set_attr name v (attributes ob)\<rparr>"

definition getAttribute :: "string \<Rightarrow> obj \<Rightarrow> string option" where
  "getAttribute name ob = map_of (attributes ob) name"

text \<open>
  The \<open>innerHTML\<close> setter replaces the children of the node by what the host parses
  from the markup; the store keeps the markup assigned, and the nodes parsed from it are
  not objects of the store.
\<close>

definition set_innerHTML :: "string \<Rightarrow> obj \<Rightarrow> obj" where
  "set_innerHTML markup ob = ob\<lparr>children := [], innerHTML := Some markup\<rparr>"

text \<open>
  The text a textarea holds after an assignment to its \<open>innerHTML\<close>. The host parses
  the markup as RCDATA (fragment parsing with a textarea as the context element): no tag
  is recognised and the text stands for itself, except that a carriage return is read as
  a line feed (a CR LF pair as one) and a character reference is replaced by the character
  it names; an ampersand that no letter, digit or \<open>#\<close> follows is text. The table of
  named references is the host's: this function knows \<open>&amp;\<close>, \<open>&lt;\<close>, \<open>&gt;\<close>
  and \<open>&quot;\<close>, and answers \<open>None\<close>, "not modelled", for an ampersand that could begin
  any other reference and for the character NUL.
\<close>

definition isAlphanumeric :: "char \<Rightarrow> bool" where
  "isAlphanumeric c =
     (let n = (of_char c :: int)
      in (48 \<le> n \<and> n \<le> 57) \<or> (65 \<le> n \<and> n \<le> 90) \<or> (97 \<le> n \<and> n \<le> 122))"

function rcdata_text :: "string \<Rightarrow> string option" where
  "rcdata_text [] = Some []"
| "rcdata_text (c # cs) =
     (if c = CHR ''&'' then
        (if starts_with ''amp;'' cs then map_option ((#) CHR ''&'') (rcdata_text (drop 4 cs))
         else if starts_with ''lt;'' cs then map_option ((#) CHR ''<'') (rcdata_text (drop 3 cs))
         else if starts_with ''gt;'' cs then map_option ((#) CHR ''>'') (rcdata_text (drop 3 cs))
         else if starts_with ''quot;'' cs then
           map_option ((#) (CHR 0x22)) (rcdata_text (drop 5 cs))
         else if cs \<noteq> [] \<and> (isAlphanumeric (hd cs) \<or> hd cs = CHR ''#'') then None
         else map_option ((#) CHR ''&'') (rcdata_text cs))
      else if c = CHR 0x0D then
        (if cs \<noteq> [] \<and> hd cs = CHR 0x0A then rcdata_text cs
         else map_option ((#) (CHR 0x0A)) (rcdata_text cs))
      else if c = CHR 0x00 then None
      else map_option ((#) c) (rcdata_text cs))"
  by pat_completeness auto
termination
  by (relation "measure length") auto

text \<open>
  The text content of a clone of a textarea whose content was assigned through
  \<open>innerHTML\<close>.
\<close>

definition textarea_text :: "obj \<Rightarrow> string option" where
  "textarea_text ob =
     (case innerHTML ob of None \<Rightarrow> None | Some markup \<Rightarrow> rcdata_text markup)"

subsection \<open>The style surface\<close>

definition getPropertyValue :: "computed_style \<Rightarrow> string \<Rightarrow> string" where
  "getPropertyValue cs name =
     (case find (\<lambda>d. fst d = name) (declarations cs) of
        None \<Rightarrow> []
      | Some d \<Rightarrow> fst (snd d))"

definition getPropertyPriority :: "computed_style \<Rightarrow> string \<Rightarrow> string" where
  "getPropertyPriority cs name =
     (case find (\<lambda>d. fst d = name) (declarations cs) of
        None \<Rightarrow> []
      | Some d \<Rightarrow> snd (snd d))"

text \<open>
  The inline style of a clone is its \<open>style\<close> attribute. A write through
  \<open>clonedNode.style\<close> sets the attribute to what the host serializes.
\<close>

definition set_cssText :: "collab \<Rightarrow> string \<Rightarrow> obj \<Rightarrow> obj" where
  "set_cssText K t ob = setAttribute ''style'' (style_cssText K t) ob"

definition setProperty ::
  "collab \<Rightarrow> string \<Rightarrow> string \<Rightarrow> string \<Rightarrow> obj \<Rightarrow> obj" where
  "setProperty K name v priority ob =
     setAttribute ''style'' (style_setProperty K (getAttribute ''style'' ob) name v priority) ob"

text \<open>A value inside a template literal: \<open>null\<close> prints as \<open>null\<close>.\<close>

definition template :: "string option \<Rightarrow> string" where
  "template v = (case v of None \<Rightarrow> ''null'' | Some t \<Rightarrow> t)"

text \<open>
  The statement the code repeats for every patch:
  \<open>clonedNode.setAttribute('style', `${clonedNode.getAttribute('style')};name:value;`)\<close>.
\<close>

definition append_style :: "string \<Rightarrow> string \<Rightarrow> obj \<Rightarrow> obj" where
  "append_style name v clonedNode =
     setAttribute ''style''
       (template (getAttribute ''style'' clonedNode) @ '';'' @ name @ '':'' @ v @ '';'')
       clonedNode"

section \<open>cloneNode.ts\<close>

subsection \<open>cloneSingleNode\<close>

text \<open>
  \<open>createImage(dataURL)\<close>: the decode is traced; when it resolves, the image it returns
  is a new object of the store.
\<close>

definition call_createImage :: "collab \<Rightarrow> string \<Rightarrow> addr promise" where
  "call_createImage K dataURL s =
     (case createImage K dataURL of
        Inl e \<Rightarrow> (Inl e, emit (Decode dataURL (Some e)) s)
      | Inr img \<Rightarrow>
          (case alloc img (emit (Decode dataURL None) s) of
             (a, s1) \<Rightarrow> (Inr a, s1)))"

definition cloneCanvasElement :: "collab \<Rightarrow> snode \<Rightarrow> addr promise" where
  "cloneCanvasElement K node s =
     (let dataURL = toDataURL (props node) in
      if dataURL = ''data:,'' then
        (case cloneNode_false node s of (a, s1) \<Rightarrow> (Inr a, s1))
      else call_createImage K dataURL s)"

text \<open>\<open>a || b\<close> on an optional string: undefined and the empty string are falsy.\<close>

definition js_or :: "string option \<Rightarrow> string \<Rightarrow> string" where
  "js_or a b = (case a of None \<Rightarrow> b | Some t \<Rightarrow> if t = [] then b else t)"

definition cloneVideoElement ::
  "collab \<Rightarrow> snode \<Rightarrow> options \<Rightarrow> addr promise" where
  "cloneVideoElement K node opts s =
     (let url = poster (props node) in
      case getBlobFromURL K url opts of
        Inl e \<Rightarrow> (Inl e, emit (Fetch url (Some e)) s)
      | Inr data \<Rightarrow>
          (let dataURL = makeDataUrl K (fst data)
                           (js_or (getMimeType K (poster (props node))) (snd data))
           in call_createImage K dataURL (emit (Fetch url None) s)))"

definition cloneSingleNode ::
  "collab \<Rightarrow> snode \<Rightarrow> options \<Rightarrow> addr promise" where
  "cloneSingleNode K node opts s =
     (if nodeClass (props node) = HTMLCanvasElement then cloneCanvasElement K node s
      else if nodeClass (props node) = HTMLVideoElement \<and> poster (props node) \<noteq> [] then
        cloneVideoElement K node opts s
      else (case cloneNode_false node s of (a, s1) \<Rightarrow> (Inr a, s1)))"

subsection \<open>The effective children\<close>

definition toUpperCase :: "string \<Rightarrow> string" where
  "toUpperCase t =
     map (\<lambda>c. let n = (of_char c :: int) in
               if 97 \<le> n \<and> n \<le> 122 then char_of (n - 32) else c) t"

text \<open>Tag names are ASCII; \<open>toUpperCase\<close> maps the letters a to z.\<close>

definition isSlotElement :: "snode \<Rightarrow> bool" where
  "isSlotElement node =
     (case tagName (props node) of
        None \<Rightarrow> False
      | Some t \<Rightarrow> toUpperCase t = ''SLOT'')"

text \<open>The constant \<open>children\<close> of \<open>cloneChildren\<close>.\<close>

definition effective_children :: "snode \<Rightarrow> snode list" where
  "effective_children nativeNode =
     (case (if isSlotElement nativeNode then assignedNodes nativeNode else None) of
        Some assigned \<Rightarrow> assigned
      | None \<Rightarrow>
          (case shadowRoot nativeNode of
             Some shadow \<Rightarrow> shadow
           | None \<Rightarrow> childNodes nativeNode))"

subsection \<open>cloneCSSStyle\<close>

text \<open>
  The block under "fix text wrap issue": the width of a \<open>P\<close> that has a fractional part
  is raised to an integer and written into the inline style.
\<close>

definition fix_text_wrap :: "snode \<Rightarrow> obj \<Rightarrow> obj" where
  "fix_text_wrap nativeNode clonedNode =
     (if tagName (props nativeNode) = Some ''P'' then
        (let width = getPropertyValue (computedStyle (props nativeNode)) ''width'' in
         if CHR ''.'' \<in> set width then
           (let floatWidth = parseFloat width;
                floatWidth1 =
                  (if js_gt (js_rem floatWidth (Fin 1)) (to_double (9 / 10))
                   then js_add floatWidth (Fin 1) else floatWidth);
                newWidth = Math_ceil floatWidth1
            in append_style ''width'' (ToString newWidth @ ''px'') clonedNode)
         else clonedNode)
      else clonedNode)"

definition cloneCSSStyle :: "collab \<Rightarrow> snode \<Rightarrow> obj \<Rightarrow> obj" where
  "cloneCSSStyle K nativeNode clonedNode =
     (let source = computedStyle (props nativeNode) in
      if \<not> has_style (nodeClass clonedNode) then clonedNode
      else
        (let c1 = (if cssText source \<noteq> [] then set_cssText K (cssText source) clonedNode
                   else foldl (\<lambda>c name.
                          setProperty K name (getPropertyValue source name)
                            (getPropertyPriority source name) c)
                        clonedNode (map fst (declarations source)));
             webkitBackgroundClip = getPropertyValue source ''-webkit-background-clip'';
             c2 = (if webkitBackgroundClip \<noteq> ''border-box''
                   then append_style ''-webkit-background-clip'' webkitBackgroundClip c1
                   else c1);
             fontFeatureSettings = getPropertyValue source ''font-feature-settings'';
             c3 = (if fontFeatureSettings \<noteq> [CHR 0x22] @ ''kern'' @ [CHR 0x22]
                   then append_style ''font-feature-settings'' fontFeatureSettings c2
                   else c2);
             c4 = fix_text_wrap nativeNode c3;
             alignItems = getPropertyValue source ''align-items'';
             c5 = (if alignItems \<noteq> ''normal''
                   then append_style ''align-items'' alignItems c4 else c4);
             perspective = getPropertyValue source ''perspective''
         in if perspective \<noteq> ''none''
            then append_style ''perspective'' perspective c5 else c5))"

subsection \<open>cloneInputValue and decorate\<close>

definition cloneInputValue :: "snode \<Rightarrow> obj \<Rightarrow> obj" where
  "cloneInputValue nativeNode clonedNode =
     (let c1 = (if nodeClass (props nativeNode) = HTMLTextAreaElement
                then set_innerHTML (currentValue (props nativeNode)) clonedNode
                else clonedNode)
      in if nodeClass (props nativeNode) = HTMLInputElement
         then setAttribute ''value'' (currentValue (props nativeNode)) c1
         else c1)"

definition decorate :: "collab \<Rightarrow> snode \<Rightarrow> addr \<Rightarrow> addr promise" where
  "decorate K nativeNode clonedNode s =
     (case heap s clonedNode of
        None \<Rightarrow> (Inr clonedNode, s)
      | Some c \<Rightarrow>
          if \<not> instanceof_Element (nodeClass c) then (Inr clonedNode, s)
          else
            (let s1 = update_obj clonedNode (cloneCSSStyle K nativeNode) s;
                 s2 = update_obj clonedNode (clonePseudoElements K nativeNode) s1;
                 s3 = update_obj clonedNode (cloneInputValue nativeNode) s2
             in (Inr clonedNode, s3)))"

subsection \<open>cloneChildren and cloneNode\<close>

text \<open>
  \<open>isRoot\<close> is an optional argument: \<open>None\<close> when the caller leaves it out, as the
  recursive call does. \<open>reduce_children\<close> is the chain the \<open>reduce\<close> of
  \<open>cloneChildren\<close> builds: each link clones one child and appends the clone, and starts
  when the link before it has resolved.
\<close>

function cloneNode ::
    "collab \<Rightarrow> snode \<Rightarrow> options \<Rightarrow> bool option \<Rightarrow> addr option promise"
  and cloneChildren ::
    "collab \<Rightarrow> snode \<Rightarrow> addr \<Rightarrow> options \<Rightarrow> addr promise"
  and reduce_children ::
    "collab \<Rightarrow> snode list \<Rightarrow> addr \<Rightarrow> options \<Rightarrow> unit promise"
where
  "cloneNode K node opts isRoot s =
     (if isRoot \<noteq> Some True \<and>
         (case filter_fn opts of None \<Rightarrow> False | Some f \<Rightarrow> \<not> f node)
      then (Inr None, s)
      else
        (case cloneSingleNode K node opts (emit (Enter (ident (props node))) s) of
           (Inl e, s1) \<Rightarrow> (Inl e, s1)
         | (Inr clonedNode, s1) \<Rightarrow>
             (case cloneChildren K node clonedNode opts s1 of
                (Inl e, s2) \<Rightarrow> (Inl e, s2)
              | (Inr clonedNode2, s2) \<Rightarrow>
                  (case decorate K node clonedNode2 s2 of
                     (Inl e, s3) \<Rightarrow> (Inl e, s3)
                   | (Inr c, s3) \<Rightarrow>
                       (Inr (Some c), emit (Exit (ident (props node)) c) s3)))))"
| "cloneChildren K nativeNode clonedNode opts s =
     (if effective_children nativeNode = [] \<or>
         nodeClass (props nativeNode) = HTMLVideoElement
      then (Inr clonedNode, s)
      else
        (case reduce_children K (effective_children nativeNode) clonedNode opts s of
           (Inl e, s1) \<Rightarrow> (Inl e, s1)
         | (Inr _, s1) \<Rightarrow> (Inr clonedNode, s1)))"
| "reduce_children K [] clonedNode opts s = (Inr (), s)"
| "reduce_children K (child # rest) clonedNode opts s =
     (case cloneNode K child opts None s of
        (Inl e, s1) \<Rightarrow> (Inl e, s1)
      | (Inr clonedChild, s1) \<Rightarrow>
          reduce_children K rest clonedNode opts
            (case clonedChild of
               None \<Rightarrow> s1
             | Some c \<Rightarrow> appendChild clonedNode c s1))"
  by pat_completeness auto
termination
proof (relation "measure (\<lambda>x. case x of
          Inl (K, node, opts, isRoot, s) \<Rightarrow> 3 * size node + 2
        | Inr (Inl (K, node, c, opts, s)) \<Rightarrow> 3 * size node + 1
        | Inr (Inr (K, cs, c, opts, s)) \<Rightarrow> 3 * size_list size cs)", goal_cases)
  case 1
  show ?case by simp
next
  case (2 K node opts isRoot s x xa y)
  show ?case by simp
next
  case (3 K nativeNode clonedNode opts s)
  have "size_list size (effective_children nativeNode) < size nativeNode"
    by (cases nativeNode)
       (auto simp: effective_children_def split: option.splits if_splits)
  then show ?case by simp
next
  case (4 K child rest clonedNode opts s)
  show ?case by simp
next
  case (5 K child rest clonedNode opts s x xa y)
  show ?case by simp
qed

section \<open>Vocabulary of the statements\<close>

text \<open>
  The predicates and observers the lemmas and theorems below are written with. None of
  them is part of the code.
\<close>

text \<open>The guard of \<open>cloneNode\<close>: the node is no root and a present filter rejects it.\<close>

definition pruned :: "options \<Rightarrow> bool option \<Rightarrow> snode \<Rightarrow> bool" where
  "pruned opts isRoot node =
     (isRoot \<noteq> Some True \<and>
      (case filter_fn opts of None \<Rightarrow> False | Some f \<Rightarrow> \<not> f node))"

text \<open>
  What \<open>cloneSingleNode\<close> does to the store: it rejects and leaves the objects alone, or
  it resolves with the address of the one object it has created.
\<close>

definition single_shape :: "state \<Rightarrow> (failure + addr) \<times> state \<Rightarrow> bool" where
  "single_shape s rs =
     ((\<exists>e. fst rs = Inl e \<and> nxt (snd rs) = nxt s \<and> heap (snd rs) = heap s) \<or>
      (\<exists>ob. fst rs = Inr (nxt s) \<and> nxt (snd rs) = Suc (nxt s) \<and>
            heap (snd rs) = (heap s)(nxt s \<mapsto> ob)))"

text \<open>
  An address is settled in a state when it is allocated there and the children of its
  object, if it holds one, are allocated too. Every node of a live document is settled in
  the state the operation starts from.
\<close>

definition settled :: "state \<Rightarrow> addr \<Rightarrow> bool" where
  "settled s a =
     (a < nxt s \<and>
      (case heap s a of
         None \<Rightarrow> True
       | Some ob \<Rightarrow> list_all (\<lambda>c. c < nxt s) (children ob)))"

text \<open>The failure an event records, if it records one.\<close>

fun failure_of :: "event \<Rightarrow> failure option" where
  "failure_of (Fetch u r) = r"
| "failure_of (Decode d r) = r"
| "failure_of (Enter a) = None"
| "failure_of (Exit a c) = None"
| "failure_of (Append p c) = None"

definition rejection :: "failure + 'a \<Rightarrow> failure option" where
  "rejection r = (case r of Inl e \<Rightarrow> Some e | Inr _ \<Rightarrow> None)"

text \<open>
  The failure the spec asks a call of \<open>cloneNode\<close> to reject with (sections 4.2 and 7),
  written from its words and apart from the code: the collaborators are called in the
  order of the traversal, and the first call that rejects decides. \<open>single_rejection\<close> is
  the part of the type-specific clone of one node: the decode of the exported data URL
  for a canvas that is not blank; the fetch of the poster, and after it the decode of the
  data URL built from the fetched blob, for a video with a poster; no call for any other
  node. \<open>first_rejection\<close> goes through a node that is not pruned and then, unless it is
  a video, through its effective children from first to last; \<open>None\<close> says that no call
  rejects.
\<close>

definition single_rejection :: "collab \<Rightarrow> snode \<Rightarrow> options \<Rightarrow> failure option" where
  "single_rejection K node opts =
     (if nodeClass (props node) = HTMLCanvasElement then
        (if toDataURL (props node) = ''data:,'' then None
         else rejection (createImage K (toDataURL (props node))))
      else if nodeClass (props node) = HTMLVideoElement \<and> poster (props node) \<noteq> [] then
        (case getBlobFromURL K (poster (props node)) opts of
           Inl e \<Rightarrow> Some e
         | Inr (blob, contentType) \<Rightarrow>
             rejection (createImage K (makeDataUrl K blob
               (case getMimeType K (poster (props node)) of
                  None \<Rightarrow> contentType
                | Some m \<Rightarrow> if m = [] then contentType else m))))
      else None)"

function first_rejection :: "collab \<Rightarrow> options \<Rightarrow> bool option \<Rightarrow> snode \<Rightarrow> failure option"
  and first_rejection_list :: "collab \<Rightarrow> options \<Rightarrow> snode list \<Rightarrow> failure option"
where
  "first_rejection K opts isRoot node =
     (if pruned opts isRoot node then None
      else
        (case single_rejection K node opts of
           Some e \<Rightarrow> Some e
         | None \<Rightarrow>
             if nodeClass (props node) = HTMLVideoElement then None
             else first_rejection_list K opts (effective_children node)))"
| "first_rejection_list K opts [] = None"
| "first_rejection_list K opts (child # rest) =
     (case first_rejection K opts None child of
        Some e \<Rightarrow> Some e
      | None \<Rightarrow> first_rejection_list K opts rest)"
  by pat_completeness auto
termination
proof (relation "measure (\<lambda>x. case x of
          Inl (K, opts, isRoot, node) \<Rightarrow> 2 * size node + 1
        | Inr (K, opts, cs) \<Rightarrow> 2 * size_list size cs)", goal_cases)
  case 1
  show ?case by simp
next
  case (2 K opts isRoot node)
  have "size_list size (effective_children node) < size node"
    by (cases node)
       (auto simp: effective_children_def split: option.splits if_splits)
  then show ?case by simp
next
  case (3 K opts child rest)
  show ?case by simp
next
  case (4 K opts child rest)
  show ?case by simp
qed

text \<open>
  The events of a run against its outcome: a run that resolves has seen no collaborator
  reject; a run that rejects with \<open>e\<close> ends with the collaborator call that rejected with
  \<open>e\<close>, the only one that rejected.
\<close>

definition run_ok :: "failure option \<Rightarrow> event list \<Rightarrow> bool" where
  "run_ok r evs =
     (case r of
        None \<Rightarrow> list_all (\<lambda>ev. failure_of ev = None) evs
      | Some e \<Rightarrow> evs \<noteq> [] \<and> failure_of (last evs) = Some e \<and>
                  list_all (\<lambda>ev. failure_of ev = None) (butlast evs))"

definition extends :: "state \<Rightarrow> failure option \<Rightarrow> state \<Rightarrow> bool" where
  "extends s r s' = (\<exists>evs. trace s' = trace s @ evs \<and> run_ok r evs)"

definition run_extends :: "state \<Rightarrow> (failure + 'a) \<times> state \<Rightarrow> bool" where
  "run_extends s rs = extends s (rejection (fst rs)) (snd rs)"

text \<open>The events a run has added to the trace.\<close>

definition new_events :: "state \<Rightarrow> state \<Rightarrow> event list" where
  "new_events s s' = drop (length (trace s)) (trace s')"

text \<open>
  A \<open>Fetch\<close> or \<open>Decode\<close> event is recorded faithfully when its outcome is the
  outcome of the collaborator on that argument.
\<close>

fun recorded :: "collab \<Rightarrow> options \<Rightarrow> event \<Rightarrow> bool" where
  "recorded K opts (Fetch u r) = (rejection (getBlobFromURL K u opts) = r)"
| "recorded K opts (Decode d r) = (rejection (createImage K d) = r)"
| "recorded K opts (Enter a) = True"
| "recorded K opts (Exit a c) = True"
| "recorded K opts (Append p c) = True"

definition all_recorded :: "collab \<Rightarrow> options \<Rightarrow> state \<Rightarrow> state \<Rightarrow> bool" where
  "all_recorded K opts s s' =
     (\<exists>evs. trace s' = trace s @ evs \<and> list_all (recorded K opts) evs)"

text \<open>
  \<open>top_level d evs\<close> keeps the events of \<open>evs\<close> that lie outside every clone that
  begins in \<open>evs\<close>, when \<open>evs\<close> itself starts \<open>d\<close> clones deep: the \<open>Enter\<close> and the
  \<open>Exit\<close> of the outermost clones and what happens between two of them.
\<close>

fun top_level :: "nat \<Rightarrow> event list \<Rightarrow> event list" where
  "top_level d [] = []"
| "top_level d (Enter a # evs) = (if d = 0 then [Enter a] else []) @ top_level (Suc d) evs"
| "top_level d (Exit a c # evs) = (if d = 1 then [Exit a c] else []) @ top_level (d - 1) evs"
| "top_level d (Fetch u r # evs) = (if d = 0 then [Fetch u r] else []) @ top_level d evs"
| "top_level d (Decode u r # evs) = (if d = 0 then [Decode u r] else []) @ top_level d evs"
| "top_level d (Append p c # evs) = (if d = 0 then [Append p c] else []) @ top_level d evs"

text \<open>A run is hidden when, inside a clone, none of its events shows at the top level.\<close>

definition hidden :: "state \<Rightarrow> state \<Rightarrow> bool" where
  "hidden s s' =
     (\<exists>evs. trace s' = trace s @ evs \<and>
        (\<forall>d rest. top_level (Suc d) (evs @ rest) = top_level (Suc d) rest))"

text \<open>
  The events of one call of \<open>cloneNode\<close> that resolved with \<open>r\<close>, seen from depth
  \<open>d\<close>: at depth 0 its \<open>Enter\<close> and its \<open>Exit\<close> (nothing for null), deeper nothing.
\<close>

definition bracket :: "addr \<Rightarrow> addr option \<Rightarrow> event list" where
  "bracket a r = (case r of None \<Rightarrow> [] | Some c \<Rightarrow> [Enter a, Exit a c])"

definition bracketed :: "addr \<Rightarrow> addr option \<Rightarrow> state \<Rightarrow> state \<Rightarrow> bool" where
  "bracketed a r s s' =
     (\<exists>evs. trace s' = trace s @ evs \<and>
        (\<forall>d rest. top_level d (evs @ rest) =
                  (if d = 0 then bracket a r else []) @ top_level d rest))"

text \<open>
  What each child of the list resolved to, in order, when the chain of \<open>cloneChildren\<close>
  runs from \<open>s\<close>: the address of its clone, or null. The list stops at a child that
  rejects.
\<close>

fun child_clones ::
  "collab \<Rightarrow> snode list \<Rightarrow> addr \<Rightarrow> options \<Rightarrow> state \<Rightarrow> addr option list" where
  "child_clones K [] clonedNode opts s = []"
| "child_clones K (child # rest) clonedNode opts s =
     (case cloneNode K child opts None s of
        (Inl e, s1) \<Rightarrow> []
      | (Inr clonedChild, s1) \<Rightarrow>
          clonedChild # child_clones K rest clonedNode opts
            (case clonedChild of None \<Rightarrow> s1 | Some c \<Rightarrow> appendChild clonedNode c s1))"

text \<open>
  The top-level events of one child: for a child that resolved with a clone, the begin of
  its clone, the end, and the append to the parent clone; for null, none.
\<close>

definition child_events :: "addr \<Rightarrow> snode \<Rightarrow> addr option \<Rightarrow> event list" where
  "child_events clonedNode child r =
     (case r of
        None \<Rightarrow> []
      | Some c \<Rightarrow>
          [Enter (ident (props child)), Exit (ident (props child)) c, Append clonedNode c])"

section \<open>Examples\<close>

definition example_style :: computed_style where
  "example_style =
     \<lparr>cssText = ''color: red;'',
      declarations =
        [(''-webkit-background-clip'', ''border-box'', []),
         (''font-feature-settings'', [CHR 0x22] @ ''kern'' @ [CHR 0x22], []),
         (''align-items'', ''normal'', []),
         (''perspective'', ''none'', [])]\<rparr>"

definition example_props :: "addr \<Rightarrow> node_class \<Rightarrow> string \<Rightarrow> source_props" where
  "example_props a k t =
     \<lparr>nodeClass = k, tagName = Some t, attributes = [], nodeValue = None,
      ident = a, poster = [], toDataURL = [], currentValue = [],
      computedStyle = example_style\<rparr>"

definition example_paragraph :: "string \<Rightarrow> snode" where
  "example_paragraph w =
     SNode ((example_props 1 OtherHTMLElement ''P'')
              \<lparr>computedStyle :=
                 example_style\<lparr>declarations :=
                   (''width'', w, []) # declarations example_style\<rparr>\<rparr>)
       [] None None"

text \<open>
  Collaborators that fail on one poster and on one data URL, and a host that keeps the
  declarations it is given as they are written.
\<close>

definition example_collab :: collab where
  "example_collab =
     \<lparr>clonePseudoElements = (\<lambda>n c. c),
      getBlobFromURL = (\<lambda>url opts.
        if url = ''bad.png'' then Inl (Rejected ''fetch failed'')
        else if url = ''broken.bin'' then Inr (''RAW'', ''broken'')
        else Inr (''BYTES'', ''image/png'')),
      createImage = (\<lambda>d.
        if d = ''data:broken'' then Inl (Rejected ''decode failed'')
        else Inr \<lparr>nodeClass = HTMLImageElement, tagName = Some ''IMG'',
                  attributes = [(''src'', d)], nodeValue = None,
                  children = [], innerHTML = None\<rparr>),
      getMimeType = (\<lambda>url. if url = ''poster.jpg'' then Some ''image/jpeg'' else None),
      makeDataUrl = (\<lambda>b m. if b = ''RAW'' then ''data:'' @ m
                           else ''data:'' @ m @ '';base64,'' @ b),
      style_cssText = (\<lambda>t. t),
      style_setProperty = (\<lambda>old name v priority.
        (case old of None \<Rightarrow> [] | Some t \<Rightarrow> if t = [] then [] else t @ '' '') @
        name @ '': '' @ v @ (if priority = [] then [] else '' !'' @ priority) @ '';'')\<rparr>"

text \<open>
  A store that holds the four objects of a live document: the root at address 0 with its
  three children at 1, 2 and 3.
\<close>

definition example_store :: state where
  "example_store =
     \<lparr>heap = (\<lambda>a. if a < 4 then
                Some \<lparr>nodeClass = OtherHTMLElement, tagName = Some ''DIV'',
                      attributes = [], nodeValue = None,
                      children = (if a = 0 then [1, 2, 3] else []),
                      innerHTML = None\<rparr>
              else None),
      nxt = 4, trace = []\<rparr>"

definition example_input :: snode where
  "example_input =
     SNode ((example_props 3 HTMLInputElement ''INPUT'')\<lparr>currentValue := ''42''\<rparr>) [] None None"

definition example_video :: "string \<Rightarrow> snode" where
  "example_video p =
     SNode ((example_props 2 HTMLVideoElement ''VIDEO'')\<lparr>poster := p\<rparr>) [] None None"

definition example_canvas :: "string \<Rightarrow> snode" where
  "example_canvas d =
     SNode ((example_props 2 HTMLCanvasElement ''CANVAS'')\<lparr>toDataURL := d\<rparr>) [] None None"

definition example_textarea :: snode where
  "example_textarea =
     SNode ((example_props 1 HTMLTextAreaElement ''TEXTAREA'')\<lparr>currentValue := ''hello''\<rparr>)
       [] None None"

text \<open>A textarea into which the user has typed \<open>1 &lt; 2\<close>, ampersand and all.\<close>

definition example_typed_textarea :: snode where
  "example_typed_textarea =
     SNode ((example_props 1 HTMLTextAreaElement ''TEXTAREA'')
              \<lparr>currentValue := ''1 &lt; 2''\<rparr>)
       [] None None"

definition example_document :: "snode \<Rightarrow> snode" where
  "example_document middle =
     SNode (example_props 0 OtherHTMLElement ''DIV'')
       [SNode (example_props 1 OtherHTMLElement ''SPAN'') [] None None, middle, example_input]
       None None"

text \<open>A filter that rejects the node at address 2, and one that rejects every node.\<close>

definition example_options :: options where
  "example_options = \<lparr>filter_fn = Some (\<lambda>n. ident (props n) \<noteq> 2)\<rparr>"

definition reject_all :: options where
  "reject_all = \<lparr>filter_fn = Some (\<lambda>n. False)\<rparr>"

text \<open>A slot whose assigned nodes differ from its own children, and a shadow host.\<close>

definition example_slot :: snode where
  "example_slot =
     SNode (example_props 1 OtherHTMLElement ''slot'') [example_textarea] None
       (Some [example_input])"

definition example_host :: snode where
  "example_host =
     SNode (example_props 1 OtherHTMLElement ''DIV'') [example_textarea]
       (Some [example_input, example_input]) None"

definition no_filter :: options where
  "no_filter = \<lparr>filter_fn = None\<rparr>"

text \<open>A video without a poster that has a child.\<close>

definition example_player :: snode where
  "example_player =
     SNode (example_props 0 HTMLVideoElement ''VIDEO'') [example_input] None None"

section \<open>Lemmas\<close>

subsection \<open>The store operations\<close>

text \<open>
  The equations of \<open>cloneNode\<close> and \<open>cloneChildren\<close> are unfolded by hand, through
  the case rules below.
\<close>

declare cloneNode.simps [simp del] cloneChildren.simps [simp del]

lemma emit_simps [simp]:
  "heap (emit e s) = heap s" "nxt (emit e s) = nxt s" "trace (emit e s) = trace s @ [e]"
  by (simp_all add: emit_def)

lemma alloc_simps [simp]:
  "fst (alloc ob s) = nxt s" "heap (snd (alloc ob s)) = (heap s)(nxt s \<mapsto> ob)"
  "nxt (snd (alloc ob s)) = Suc (nxt s)" "trace (snd (alloc ob s)) = trace s"
  by (simp_all add: alloc_def)

lemma update_obj_simps [simp]:
  "heap (update_obj a f s) = (heap s)(a := map_option f (heap s a))"
  "nxt (update_obj a f s) = nxt s" "trace (update_obj a f s) = trace s"
  by (simp_all add: update_obj_def)

lemma appendChild_simps [simp]:
  "nxt (appendChild p c s) = nxt s" "trace (appendChild p c s) = trace s @ [Append p c]"
  "heap (appendChild p c s) a = map_option
           (\<lambda>ob. ob\<lparr>children := removeAll c (children ob) @ (if a = p then [c] else [])\<rparr>)
           (heap s a)"
  by (simp_all add: appendChild_def emit_def)

subsection \<open>cloneSingleNode creates at most one object\<close>

lemma call_createImage_shape:
  "single_shape (emit ev s) (call_createImage K d (emit ev s)) \<and>
   single_shape s (call_createImage K d s)"
  by (auto simp: single_shape_def call_createImage_def alloc_def emit_def split: sum.splits)

lemma cloneSingleNode_shape: "single_shape s (cloneSingleNode K node opts s)"
proof -
  have a: "single_shape s (case cloneNode_false node s of (a, s1) \<Rightarrow> (Inr a, s1))"
    by (auto simp add: single_shape_def cloneNode_false_def alloc_def)
  have b: "single_shape s (cloneCanvasElement K node s)"
    using a call_createImage_shape[of _ s K] by (simp add: cloneCanvasElement_def Let_def)
  have c: "single_shape s (cloneVideoElement K node opts s)"
  proof (cases "getBlobFromURL K (poster (props node)) opts")
    case (Inl e)
    then show ?thesis by (simp add: cloneVideoElement_def Let_def single_shape_def)
  next
    case (Inr data)
    have "single_shape (emit (Fetch (poster (props node)) None) s)
            (call_createImage K (makeDataUrl K (fst data)
                           (js_or (getMimeType K (poster (props node))) (snd data))) (emit (Fetch (poster (props node)) None) s))"
      using call_createImage_shape by blast
    then show ?thesis using Inr by (simp add: cloneVideoElement_def Let_def single_shape_def)
  qed
  show ?thesis using a b c by (simp add: cloneSingleNode_def)
qed

lemma cloneSingleNode_cases:
  assumes "cloneSingleNode K node opts s = (r1, s1)"
  obtains (reject) e where "r1 = Inl e" "nxt s1 = nxt s" "heap s1 = heap s"
  | (resolve) ob where "r1 = Inr (nxt s)" "nxt s1 = Suc (nxt s)" "heap s1 = (heap s)(nxt s \<mapsto> ob)"
  using cloneSingleNode_shape[of s K node opts] assms unfolding single_shape_def by auto

subsection \<open>The runs of cloneNode and of the chain, case by case\<close>

lemma decorate_simps [simp]:
  "fst (decorate K n c s) = Inr c" "nxt (snd (decorate K n c s)) = nxt s"
  "trace (snd (decorate K n c s)) = trace s"
  by (auto simp: decorate_def Let_def split: option.splits)

lemma decorate_eq:
  assumes "decorate K n c s = (r, s')"
  shows "r = Inr c" "nxt s' = nxt s" "trace s' = trace s"
  using assms decorate_simps[of K n c s] by auto

lemma cloneNode_cases [consumes 0, case_names pruned single_fail children_fail resolved]:
  obtains
    (pruned) "pruned opts isRoot node" "cloneNode K node opts isRoot s = (Inr None, s)"
  | (single_fail) e s1 where "\<not> pruned opts isRoot node"
      "cloneSingleNode K node opts (emit (Enter (ident (props node))) s) = (Inl e, s1)"
      "cloneNode K node opts isRoot s = (Inl e, s1)"
  | (children_fail) c s1 e s2 where "\<not> pruned opts isRoot node"
      "cloneSingleNode K node opts (emit (Enter (ident (props node))) s) = (Inr c, s1)"
      "cloneChildren K node c opts s1 = (Inl e, s2)"
      "cloneNode K node opts isRoot s = (Inl e, s2)"
  | (resolved) c s1 c2 s2 s3 where "\<not> pruned opts isRoot node"
      "cloneSingleNode K node opts (emit (Enter (ident (props node))) s) = (Inr c, s1)"
      "cloneChildren K node c opts s1 = (Inr c2, s2)"
      "decorate K node c2 s2 = (Inr c2, s3)"
      "cloneNode K node opts isRoot s = (Inr (Some c2), emit (Exit (ident (props node)) c2) s3)"
proof (cases "pruned opts isRoot node")
  case True
  then show ?thesis using that(1) by (simp add: cloneNode.simps pruned_def)
next
  case np: False
  obtain r1 s1 where c1: "cloneSingleNode K node opts (emit (Enter (ident (props node))) s) = (r1, s1)"
    by force
  show ?thesis
  proof (cases r1)
    case (Inl e)
    then show ?thesis using that(2)[of e s1] np c1 by (simp add: cloneNode.simps pruned_def)
  next
    case (Inr c)
    obtain r2 s2 where c2: "cloneChildren K node c opts s1 = (r2, s2)" by force
    show ?thesis
    proof (cases r2)
      case (Inl e)
      then show ?thesis using that(3)[of c s1 e s2] np c1 Inr c2
        by (simp add: cloneNode.simps pruned_def)
    next
      case r2: (Inr c2)
      obtain r3 s3 where c3: "decorate K node c2 s2 = (r3, s3)" by force
      have r3: "r3 = Inr c2" using decorate_eq(1)[OF c3] .
      show ?thesis using that(4)[of c s1 c2 s2 s3] np c1 Inr c2 r2 c3 r3
        by (simp add: cloneNode.simps pruned_def)
    qed
  qed
qed

lemma reduce_children_cases [consumes 0, case_names child_fail child_null child_cloned]:
  obtains
    (child_fail) e s1 where "cloneNode K child opts None s = (Inl e, s1)"
      "reduce_children K (child # rest) clonedNode opts s = (Inl e, s1)"
  | (child_null) s1 where "cloneNode K child opts None s = (Inr None, s1)"
      "reduce_children K (child # rest) clonedNode opts s = reduce_children K rest clonedNode opts s1"
  | (child_cloned) c s1 where "cloneNode K child opts None s = (Inr (Some c), s1)"
      "reduce_children K (child # rest) clonedNode opts s =
         reduce_children K rest clonedNode opts (appendChild clonedNode c s1)"
proof -
  obtain r1 s1 where c1: "cloneNode K child opts None s = (r1, s1)" by force
  show ?thesis
  proof (cases r1)
    case (Inl e)
    then show ?thesis using that(1)[of e s1] c1 by simp
  next
    case (Inr b)
    then show ?thesis using that(2)[of s1] that(3)[of _ s1] c1 by (cases b) simp_all
  qed
qed

subsection \<open>Addresses: a clone is a new object\<close>

lemma nxt_mono:
  "nxt s \<le> nxt (snd (cloneNode K node opts isRoot s)) \<and>
   (\<forall>a. fst (cloneNode K node opts isRoot s) = Inr (Some a) \<longrightarrow>
        nxt s \<le> a \<and> a < nxt (snd (cloneNode K node opts isRoot s)))"
  "nxt s \<le> nxt (snd (cloneChildren K nativeNode clonedNode opts s)) \<and>
   (\<forall>a. fst (cloneChildren K nativeNode clonedNode opts s) = Inr a \<longrightarrow> a = clonedNode)"
  "nxt s \<le> nxt (snd (reduce_children K cs clonedNode opts s))"
proof (induction K node opts isRoot s and K nativeNode clonedNode opts s and K cs clonedNode opts s
       rule: cloneNode_cloneChildren_reduce_children.induct)
  case (1 K node opts isRoot s)
  show ?case
  proof (cases rule: cloneNode_cases[of opts isRoot node K s])
    case pruned
    then show ?thesis by simp
  next
    case (single_fail e s1)
    then show ?thesis by (auto elim: cloneSingleNode_cases)
  next
    case (children_fail c s1 e s2)
    note IH = "1.IH"[OF children_fail(1)[unfolded pruned_def] children_fail(2)[symmetric] refl]
    from children_fail(2) show ?thesis using IH children_fail by (auto elim!: cloneSingleNode_cases)
  next
    case (resolved c s1 c2 s2 s3)
    note IH = "1.IH"[OF resolved(1)[unfolded pruned_def] resolved(2)[symmetric] refl]
    from resolved(2) show ?thesis using IH resolved decorate_eq[OF resolved(4)]
      by (auto elim!: cloneSingleNode_cases)
  qed
next
  case (2 K nativeNode clonedNode opts s)
  then show ?case
    by (auto simp add: cloneChildren.simps split: prod.splits sum.splits)
next
  case (3 K clonedNode opts s)
  then show ?case by simp
next
  case (4 K child rest clonedNode opts s)
  show ?case
  proof (cases rule: reduce_children_cases[of K child opts s rest clonedNode])
    case (child_fail e s1)
    then show ?thesis using "4.IH"(1) by simp
  next
    case (child_null s1)
    then show ?thesis using "4.IH"(1) "4.IH"(2)[OF child_null(1)[symmetric] refl] by simp
  next
    case (child_cloned c s1)
    then show ?thesis using "4.IH"(1) "4.IH"(2)[OF child_cloned(1)[symmetric] refl] by simp
  qed
qed

subsection \<open>The frame: settled objects stay as they are\<close>

lemma settled_mono:
  "settled s a \<Longrightarrow> heap s1 a = heap s a \<Longrightarrow> nxt s \<le> nxt s1 \<Longrightarrow> settled s1 a"
  by (auto simp: settled_def list_all_iff split: option.splits)

lemma decorate_heap: "a \<noteq> c \<Longrightarrow> heap (snd (decorate K n c s)) a = heap s a"
  by (auto simp: decorate_def Let_def split: option.splits)

lemma frame:
  "settled s a \<Longrightarrow> heap (snd (cloneNode K node opts isRoot s)) a = heap s a"
  "settled s a \<Longrightarrow> a \<noteq> clonedNode \<Longrightarrow>
     heap (snd (cloneChildren K nativeNode clonedNode opts s)) a = heap s a"
  "settled s a \<Longrightarrow> a \<noteq> clonedNode \<Longrightarrow>
     heap (snd (reduce_children K cs clonedNode opts s)) a = heap s a"
proof (induction K node opts isRoot s and K nativeNode clonedNode opts s and K cs clonedNode opts s
       rule: cloneNode_cloneChildren_reduce_children.induct)
  case (1 K node opts isRoot s)
  have a: "a < nxt s" using "1.prems" by (simp add: settled_def)
  show ?case
  proof (cases rule: cloneNode_cases[of opts isRoot node K s])
    case pruned
    then show ?thesis by simp
  next
    case (single_fail e s1)
    from single_fail(2) show ?thesis using single_fail(3) a by (auto elim!: cloneSingleNode_cases)
  next
    case (children_fail c s1 e s2)
    from children_fail(2) have c: "c = nxt s" "nxt s1 = Suc (nxt s)" "heap s1 a = heap s a"
      using a by (auto elim!: cloneSingleNode_cases)
    have "settled s1 a" using settled_mono[OF "1.prems"] c by simp
    from "1.IH"[OF children_fail(1)[unfolded pruned_def] children_fail(2)[symmetric] refl this]
    show ?thesis using children_fail c a by simp
  next
    case (resolved c s1 c2 s2 s3)
    from resolved(2) have c: "c = nxt s" "nxt s1 = Suc (nxt s)" "heap s1 a = heap s a"
      using a by (auto elim!: cloneSingleNode_cases)
    have "settled s1 a" using settled_mono[OF "1.prems"] c by simp
    from "1.IH"[OF resolved(1)[unfolded pruned_def] resolved(2)[symmetric] refl this]
    have h2: "heap s2 a = heap s1 a" using resolved c a by simp
    have c2: "c2 = c" using nxt_mono(2)[of s1 K node c opts] resolved(3) by simp
    have "heap s3 a = heap s2 a" using decorate_heap[of a c2 K node s2] resolved(4) c2 c a by simp
    then show ?thesis using resolved h2 c by simp
  qed
next
  case (2 K nativeNode clonedNode opts s)
  then show ?case
    by (auto simp add: cloneChildren.simps split: prod.splits sum.splits)
next
  case (3 K clonedNode opts s)
  then show ?case by simp
next
  case (4 K child rest clonedNode opts s)
  show ?case
  proof (cases rule: reduce_children_cases[of K child opts s rest clonedNode])
    case (child_fail e s1)
    then show ?thesis using "4.IH"(1)[OF "4.prems"(1)] by simp
  next
    case (child_null s1)
    have h1: "heap s1 a = heap s a" using "4.IH"(1)[OF "4.prems"(1)] child_null by simp
    have n1: "nxt s \<le> nxt s1" using nxt_mono(1)[of s K child opts None] child_null by simp
    have "settled s1 a" using settled_mono[OF "4.prems"(1) h1 n1] .
    from "4.IH"(2)[OF child_null(1)[symmetric] refl] this "4.prems"(2)
    show ?thesis using child_null h1 by simp
  next
    case (child_cloned c s1)
    have h1: "heap s1 a = heap s a" using "4.IH"(1)[OF "4.prems"(1)] child_cloned by simp
    have n1: "nxt s \<le> nxt s1" "nxt s \<le> c" using nxt_mono(1)[of s K child opts None] child_cloned by simp_all
    have st1: "settled s1 a" using settled_mono[OF "4.prems"(1) h1 n1(1)] .
    have c_fresh: "c \<notin> (case heap s1 a of None \<Rightarrow> {} | Some ob \<Rightarrow> set (children ob))"
      using "4.prems"(1) h1 n1(2) by (auto simp: settled_def list_all_iff split: option.splits)
    have h2: "heap (appendChild clonedNode c s1) a = heap s1 a"
    proof (cases "heap s1 a")
      case None
      then show ?thesis by simp
    next
      case (Some ob)
      then have "removeAll c (children ob) = children ob" using c_fresh by simp
      then show ?thesis using Some "4.prems"(2) by simp
    qed
    have "settled (appendChild clonedNode c s1) a" using settled_mono[OF st1 h2] by simp
    from "4.IH"(2)[OF child_cloned(1)[symmetric] refl] this "4.prems"(2)
    show ?thesis using child_cloned h1 h2 by simp
  qed
qed

subsection \<open>The trace against the outcome\<close>

lemma run_ok_append:
  "run_ok None evs1 \<Longrightarrow> run_ok r evs2 \<Longrightarrow> run_ok r (evs1 @ evs2)"
  by (cases r) (auto simp: run_ok_def butlast_append)

lemma run_ok_Nil [simp]: "run_ok None []"
  by (simp add: run_ok_def)

lemma run_extends_pair [simp]:
  "run_extends s (Inl e, s') = extends s (Some e) s'"
  "run_extends s (Inr x, s') = extends s None s'"
  by (simp_all add: run_extends_def rejection_def)

lemma extends_trans:
  assumes "extends s None s1" "extends s1 r s2"
  shows "extends s r s2"
proof -
  from assms(1) obtain evs1 where 1: "trace s1 = trace s @ evs1" "run_ok None evs1"
    by (auto simp: extends_def)
  from assms(2) obtain evs2 where 2: "trace s2 = trace s1 @ evs2" "run_ok r evs2"
    by (auto simp: extends_def)
  show ?thesis unfolding extends_def using 1 2 run_ok_append[OF 1(2) 2(2)]
    by (intro exI[of _ "evs1 @ evs2"]) simp
qed

lemma run_extends_trans:
  "extends s None s1 \<Longrightarrow> run_extends s1 rs \<Longrightarrow> run_extends s rs"
  unfolding run_extends_def by (rule extends_trans)

lemma extends_refl [simp]: "extends s None s"
  by (simp add: extends_def)

lemma extends_emit [simp]: "extends s None (emit ev s) = (failure_of ev = None)"
  by (simp add: extends_def run_ok_def)

lemma extends_emit_fail: "failure_of ev = Some e \<Longrightarrow> extends s (Some e) (emit ev s)"
  by (simp add: extends_def run_ok_def)

lemma extends_same_trace: "trace s' = trace s \<Longrightarrow> extends s None s'"
  by (simp add: extends_def)

lemma call_createImage_extends: "run_extends s (call_createImage K d s)"
proof (cases "createImage K d")
  case (Inl e)
  then show ?thesis by (simp add: call_createImage_def extends_emit_fail)
next
  case (Inr img)
  have "extends s None (snd (alloc img (emit (Decode d None) s)))"
    by (simp add: extends_def run_ok_def)
  then show ?thesis using Inr by (auto simp add: call_createImage_def split: prod.splits)
qed

lemma cloneSingleNode_extends: "run_extends s (cloneSingleNode K node opts s)"
proof -
  have a: "run_extends s (case cloneNode_false node s of (a, s1) \<Rightarrow> (Inr a, s1))"
    by (simp add: cloneNode_false_def alloc_def extends_same_trace)
  have b: "run_extends s (cloneCanvasElement K node s)"
    using a call_createImage_extends by (simp add: cloneCanvasElement_def Let_def)
  have c: "run_extends s (cloneVideoElement K node opts s)"
  proof (cases "getBlobFromURL K (poster (props node)) opts")
    case (Inl e)
    then show ?thesis
      by (simp add: cloneVideoElement_def Let_def extends_emit_fail)
  next
    case (Inr data)
    let ?s1 = "emit (Fetch (poster (props node)) None) s"
    have "extends s None ?s1" by simp
    from run_extends_trans[OF this call_createImage_extends]
    show ?thesis using Inr by (simp add: cloneVideoElement_def Let_def)
  qed
  show ?thesis using a b c by (simp add: cloneSingleNode_def)
qed

lemma trace_extends:
  "run_extends s (cloneNode K node opts isRoot s)"
  "run_extends s (cloneChildren K nativeNode clonedNode opts s)"
  "run_extends s (reduce_children K cs clonedNode opts s)"
proof (induction K node opts isRoot s and K nativeNode clonedNode opts s and K cs clonedNode opts s
       rule: cloneNode_cloneChildren_reduce_children.induct)
  case (1 K node opts isRoot s)
  let ?s0 = "emit (Enter (ident (props node))) s"
  have e0: "extends s None ?s0" by simp
  have e1: "run_extends s (cloneSingleNode K node opts ?s0)"
    by (rule run_extends_trans[OF e0 cloneSingleNode_extends])
  show ?case
  proof (cases rule: cloneNode_cases[of opts isRoot node K s])
    case pruned
    then show ?thesis by simp
  next
    case (single_fail e s1)
    then show ?thesis using e1 by simp
  next
    case (children_fail c s1 e s2)
    have e2: "run_extends s1 (Inl e, s2)"
      using "1.IH"[OF children_fail(1)[unfolded pruned_def] children_fail(2)[symmetric] refl]
        children_fail(3) by simp
    have "extends s None s1" using e1 children_fail(2) by simp
    from run_extends_trans[OF this e2] show ?thesis using children_fail(4) by simp
  next
    case (resolved c s1 c2 s2 s3)
    have e2: "extends s1 None s2"
      using "1.IH"[OF resolved(1)[unfolded pruned_def] resolved(2)[symmetric] refl]
        resolved(3) by simp
    have "extends s None s1" using e1 resolved(2) by simp
    from extends_trans[OF this e2] have e02: "extends s None s2" .
    have "trace s3 = trace s2" using decorate_eq(3)[OF resolved(4)] .
    then have "extends s2 None (emit (Exit (ident (props node)) c2) s3)"
      by (simp add: extends_def run_ok_def)
    from extends_trans[OF e02 this] show ?thesis using resolved(5) by simp
  qed
next
  case (2 K nativeNode clonedNode opts s)
  show ?case
  proof (cases "effective_children nativeNode = [] \<or> nodeClass (props nativeNode) = HTMLVideoElement")
    case True
    then show ?thesis by (simp add: cloneChildren.simps)
  next
    case False
    from "2.IH"[OF False] show ?thesis using False
      by (auto simp add: cloneChildren.simps run_extends_def rejection_def split: prod.splits sum.splits)
  qed
next
  case (3 K clonedNode opts s)
  then show ?case by simp
next
  case (4 K child rest clonedNode opts s)
  show ?case
  proof (cases rule: reduce_children_cases[of K child opts s rest clonedNode])
    case (child_fail e s1)
    then show ?thesis using "4.IH"(1) by simp
  next
    case (child_null s1)
    have "extends s None s1" using "4.IH"(1) child_null(1) by simp
    from run_extends_trans[OF this "4.IH"(2)[OF child_null(1)[symmetric] refl, simplified]]
    show ?thesis using child_null by simp
  next
    case (child_cloned c s1)
    have 1: "extends s None s1" using "4.IH"(1) child_cloned(1) by simp
    have "extends s1 None (appendChild clonedNode c s1)"
      by (simp add: extends_def run_ok_def)
    from extends_trans[OF 1 this] have "extends s None (appendChild clonedNode c s1)" .
    from run_extends_trans[OF this "4.IH"(2)[OF child_cloned(1)[symmetric] refl, simplified]]
    show ?thesis using child_cloned by simp
  qed
qed

subsection \<open>Null results\<close>

lemma new_events_self [simp]: "new_events s s = []"
  by (simp add: new_events_def)

lemma cloneNode_null_iff:
  "fst (cloneNode K node opts isRoot s) = Inr None \<longleftrightarrow> pruned opts isRoot node"
  by (cases rule: cloneNode_cases[of opts isRoot node K s]) simp_all

lemma cloneNode_pruned:
  "pruned opts isRoot node \<Longrightarrow> cloneNode K node opts isRoot s = (Inr None, s)"
  by (cases rule: cloneNode_cases[of opts isRoot node K s]) simp_all

subsection \<open>The trace at the level of the children\<close>

lemma hidden_refl [simp]: "hidden s s"
  by (simp add: hidden_def)

lemma hidden_trans: "hidden s s1 \<Longrightarrow> hidden s1 s2 \<Longrightarrow> hidden s s2"
  unfolding hidden_def
  apply (elim exE conjE)
  subgoal for evs1 evs2
    by (rule exI[of _ "evs1 @ evs2"]) simp
  done

lemma hidden_same: "trace s' = trace s \<Longrightarrow> hidden s s'"
  by (simp add: hidden_def)

lemma hidden_emit:
  "hidden s (emit (Fetch u r) s)" "hidden s (emit (Decode u r) s)" "hidden s (emit (Append p c) s)"
  by (simp_all add: hidden_def)

lemma call_createImage_hidden: "hidden s (snd (call_createImage K d s))"
proof (cases "createImage K d")
  case (Inl e)
  then show ?thesis by (simp add: call_createImage_def hidden_emit)
next
  case (Inr img)
  have "hidden (emit (Decode d None) s) (snd (alloc img (emit (Decode d None) s)))"
    by (rule hidden_same) simp
  from hidden_trans[OF hidden_emit(2) this]
  show ?thesis using Inr by (auto simp add: call_createImage_def split: prod.splits)
qed

lemma cloneSingleNode_hidden: "hidden s (snd (cloneSingleNode K node opts s))"
proof -
  have a: "hidden s (snd (case cloneNode_false node s of (a, s1) \<Rightarrow> (Inr a, s1)))"
    by (rule hidden_same) (simp add: cloneNode_false_def alloc_def)
  have b: "hidden s (snd (cloneCanvasElement K node s))"
    using a call_createImage_hidden[of s K] by (auto simp add: cloneCanvasElement_def Let_def)
  have c: "hidden s (snd (cloneVideoElement K node opts s))"
  proof (cases "getBlobFromURL K (poster (props node)) opts")
    case (Inl e)
    then show ?thesis by (simp add: cloneVideoElement_def Let_def hidden_emit)
  next
    case (Inr data)
    from hidden_trans[OF hidden_emit(1) call_createImage_hidden]
    show ?thesis using Inr by (simp add: cloneVideoElement_def Let_def)
  qed
  show ?thesis using a b c by (auto simp add: cloneSingleNode_def)
qed

lemma bracketed_hidden: "bracketed a r s s' \<Longrightarrow> hidden s s'"
  by (auto simp: bracketed_def hidden_def)

lemma bracketedI:
  assumes "hidden (emit (Enter a) s) s2"
  shows "bracketed a (Some c) s (emit (Exit a c) s2)"
proof -
  from assms obtain evs where e: "trace s2 = trace s @ Enter a # evs"
    "\<And>d rest. top_level (Suc d) (evs @ rest) = top_level (Suc d) rest"
    by (auto simp: hidden_def)
  show ?thesis unfolding bracketed_def
    by (rule exI[of _ "Enter a # evs @ [Exit a c]"]) (simp add: e bracket_def)
qed

lemma trace_structure:
  "fst (cloneNode K node opts isRoot s) = Inr r \<Longrightarrow>
     bracketed (ident (props node)) r s (snd (cloneNode K node opts isRoot s))"
  "fst (cloneChildren K nativeNode clonedNode opts s) = Inr x \<Longrightarrow>
     hidden s (snd (cloneChildren K nativeNode clonedNode opts s))"
  "fst (reduce_children K cs clonedNode opts s) = Inr y \<Longrightarrow>
     hidden s (snd (reduce_children K cs clonedNode opts s))"
proof (induction K node opts isRoot s and K nativeNode clonedNode opts s and K cs clonedNode opts s
       arbitrary: r and x and y rule: cloneNode_cloneChildren_reduce_children.induct)
  case (1 K node opts isRoot s)
  let ?s0 = "emit (Enter (ident (props node))) s"
  show ?case
  proof (cases rule: cloneNode_cases[of opts isRoot node K s])
    case pruned
    then show ?thesis using "1.prems" by (auto simp: bracketed_def bracket_def)
  next
    case (single_fail e s1)
    then show ?thesis using "1.prems" by simp
  next
    case (children_fail c s1 e s2)
    then show ?thesis using "1.prems" by simp
  next
    case (resolved c s1 c2 s2 s3)
    have h1: "hidden ?s0 s1" using cloneSingleNode_hidden[of ?s0 K node opts] resolved(2) by simp
    have h2: "hidden s1 s2"
      using "1.IH"[OF resolved(1)[unfolded pruned_def] resolved(2)[symmetric] refl, of c2]
        resolved(3) by simp
    have h3: "hidden s2 s3" using decorate_eq(3)[OF resolved(4)] by (rule hidden_same)
    have "hidden ?s0 s3" using hidden_trans[OF hidden_trans[OF h1 h2] h3] .
    from bracketedI[OF this] show ?thesis using resolved(5) "1.prems" by auto
  qed
next
  case (2 K nativeNode clonedNode opts s)
  show ?case
  proof (cases "effective_children nativeNode = [] \<or> nodeClass (props nativeNode) = HTMLVideoElement")
    case True
    then show ?thesis by (simp add: cloneChildren.simps)
  next
    case False
    from "2.IH"[OF False] "2.prems" show ?thesis using False
      by (auto simp add: cloneChildren.simps split: prod.splits sum.splits)
  qed
next
  case (3 K clonedNode opts s)
  then show ?case by simp
next
  case (4 K child rest clonedNode opts s)
  show ?case
  proof (cases rule: reduce_children_cases[of K child opts s rest clonedNode])
    case (child_fail e s1)
    then show ?thesis using "4.prems" by simp
  next
    case (child_null s1)
    have 1: "hidden s s1" using bracketed_hidden[OF "4.IH"(1)[of None]] child_null(1) by simp
    have 2: "hidden s1 (snd (reduce_children K rest clonedNode opts s1))"
      using "4.IH"(2)[OF child_null(1)[symmetric] refl, simplified] "4.prems" child_null(2) by simp
    from hidden_trans[OF 1 2] show ?thesis using child_null by simp
  next
    case (child_cloned c s1)
    let ?s1 = "appendChild clonedNode c s1"
    have 1: "hidden s s1" using bracketed_hidden[OF "4.IH"(1)[of "Some c"]] child_cloned(1) by simp
    have "hidden s1 ?s1" by (simp add: hidden_def)
    from hidden_trans[OF 1 this] have 1: "hidden s ?s1" .
    have 2: "hidden ?s1 (snd (reduce_children K rest clonedNode opts ?s1))"
      using "4.IH"(2)[OF child_cloned(1)[symmetric] refl, simplified] "4.prems" child_cloned(2) by simp
    from hidden_trans[OF 1 2] show ?thesis using child_cloned by simp
  qed
qed

subsection \<open>The chain of cloneChildren\<close>

lemma child_clones_shape:
  "fst (reduce_children K cs p opts s) = Inr y \<Longrightarrow>
     length (child_clones K cs p opts s) = length cs \<and>
     map (\<lambda>r. r = None) (child_clones K cs p opts s) = map (pruned opts None) cs"
proof (induction cs arbitrary: s)
  case Nil
  then show ?case by simp
next
  case (Cons child rest)
  show ?case
  proof (cases rule: reduce_children_cases[of K child opts s rest p])
    case (child_fail e s1)
    then show ?thesis using Cons.prems by simp
  next
    case (child_null s1)
    have "pruned opts None child" using cloneNode_null_iff[of K child opts None s] child_null(1) by simp
    then show ?thesis using Cons.IH[of s1] Cons.prems child_null by simp
  next
    case (child_cloned c s1)
    have "\<not> pruned opts None child" using cloneNode_null_iff[of K child opts None s] child_cloned(1) by simp
    then show ?thesis using Cons.IH[of "appendChild p c s1"] Cons.prems child_cloned by simp
  qed
qed

lemma reduce_children_order:
  "fst (reduce_children K cs p opts s) = Inr y \<Longrightarrow> heap s p = Some ob \<Longrightarrow> settled s p \<Longrightarrow>
     heap (snd (reduce_children K cs p opts s)) p =
       Some (ob\<lparr>children := children ob @ List.map_filter (\<lambda>r. r) (child_clones K cs p opts s)\<rparr>)"
proof (induction cs arbitrary: s ob)
  case Nil
  then show ?case by (simp add: List.map_filter_simps)
next
  case (Cons child rest)
  show ?case
  proof (cases rule: reduce_children_cases[of K child opts s rest p])
    case (child_fail e s1)
    then show ?thesis using Cons.prems by simp
  next
    case (child_null s1)
    have h1: "heap s1 p = heap s p" using frame(1)[OF Cons.prems(3), of K child opts None] child_null(1) by simp
    have n1: "nxt s \<le> nxt s1" using nxt_mono(1)[of s K child opts None] child_null(1) by simp
    have st: "settled s1 p" using settled_mono[OF Cons.prems(3) h1 n1] .
    show ?thesis using Cons.IH[of s1 ob] Cons.prems child_null h1 st
      by (simp add: List.map_filter_simps)
  next
    case (child_cloned c s1)
    let ?s1 = "appendChild p c s1"
    have h1: "heap s1 p = heap s p" using frame(1)[OF Cons.prems(3), of K child opts None] child_cloned(1) by simp
    have n1: "nxt s \<le> nxt s1" "nxt s \<le> c" "c < nxt s1"
      using nxt_mono(1)[of s K child opts None] child_cloned(1) by simp_all
    have old: "list_all (\<lambda>x. x < nxt s) (children ob)" using Cons.prems(2,3) by (simp add: settled_def)
    then have "c \<notin> set (children ob)" using n1(2) by (auto simp: list_all_iff)
    then have rm: "removeAll c (children ob) = children ob" by simp
    let ?ob = "ob\<lparr>children := children ob @ [c]\<rparr>"
    have h2: "heap ?s1 p = Some ?ob" using h1 Cons.prems(2) rm by simp
    have "list_all (\<lambda>x. x < nxt s1) (children ?ob)" using old n1 by (auto simp: list_all_iff)
    then have st: "settled ?s1 p" unfolding settled_def h2 using Cons.prems(3) n1
      by (simp add: settled_def)
    show ?thesis using Cons.IH[of ?s1 ?ob] Cons.prems(1) child_cloned h2 st
      by (simp add: List.map_filter_simps)
  qed
qed

lemma reduce_children_top_level:
  "fst (reduce_children K cs p opts s) = Inr y \<Longrightarrow>
     \<exists>evs. trace (snd (reduce_children K cs p opts s)) = trace s @ evs \<and>
       (\<forall>rest. top_level 0 (evs @ rest) =
          concat (map2 (child_events p) cs (child_clones K cs p opts s)) @ top_level 0 rest)"
proof (induction cs arbitrary: s)
  case Nil
  then show ?case by simp
next
  case (Cons child rest)
  show ?case
  proof (cases rule: reduce_children_cases[of K child opts s rest p])
    case (child_fail e s1)
    then show ?thesis using Cons.prems by simp
  next
    case (child_null s1)
    have "s1 = s" using cloneNode_pruned[of opts None child K s] cloneNode_null_iff[of K child opts None s] child_null(1) by simp
    then show ?thesis using Cons.IH[of s] Cons.prems child_null by (simp add: child_events_def)
  next
    case (child_cloned c s1)
    let ?s1 = "appendChild p c s1"
    let ?a = "ident (props child)"
    from trace_structure(1)[of K child opts None s "Some c"] child_cloned(1)
    obtain evs1 where 1: "trace s1 = trace s @ evs1"
      "\<And>d rest. top_level d (evs1 @ rest) = (if d = 0 then bracket ?a (Some c) else []) @ top_level d rest"
      by (auto simp: bracketed_def)
    from Cons.IH[of ?s1] Cons.prems child_cloned
    obtain evs2 where 2: "trace (snd (reduce_children K rest p opts ?s1)) = trace ?s1 @ evs2"
      "\<And>rest'. top_level 0 (evs2 @ rest') =
          concat (map2 (child_events p) rest (child_clones K rest p opts ?s1)) @ top_level 0 rest'"
      by auto
    show ?thesis
    proof (intro exI[of _ "evs1 @ Append p c # evs2"] conjI allI)
      show "trace (snd (reduce_children K (child # rest) p opts s)) = trace s @ evs1 @ Append p c # evs2"
        using child_cloned 1 2 by simp
    next
      fix rest'
      have "top_level 0 ((evs1 @ Append p c # evs2) @ rest') =
            bracket ?a (Some c) @ top_level 0 (Append p c # evs2 @ rest')"
        using 1(2)[of 0 "Append p c # evs2 @ rest'"] by simp
      also have "\<dots> = child_events p child (Some c) @ top_level 0 (evs2 @ rest')"
        by (simp add: bracket_def child_events_def)
      finally show "top_level 0 ((evs1 @ Append p c # evs2) @ rest') =
          concat (map2 (child_events p) (child # rest) (child_clones K (child # rest) p opts s)) @
          top_level 0 rest'"
        using 2(2)[of rest'] child_cloned by simp
    qed
  qed
qed

lemma reduce_children_append:
  "reduce_children K (xs @ ys) p opts s =
     (case reduce_children K xs p opts s of
        (Inl e, s1) \<Rightarrow> (Inl e, s1)
      | (Inr _, s1) \<Rightarrow> reduce_children K ys p opts s1)"
proof (induction xs arbitrary: s)
  case Nil
  then show ?case by simp
next
  case (Cons child rest)
  show ?case
    by (cases rule: reduce_children_cases[of K child opts s rest p])
       (simp_all add: Cons.IH)
qed

lemma pruned_child_omitted:
  assumes "pruned opts None c"
  shows "reduce_children K (pre @ c # post) p opts s = reduce_children K (pre @ post) p opts s"
  using cloneNode_pruned[OF assms, of K]
  by (simp add: reduce_children_append split: prod.splits sum.splits)

subsection \<open>A clone that begins leaves a trace\<close>

lemma extends_length: "extends s r s' \<Longrightarrow> length (trace s) \<le> length (trace s')"
  by (auto simp: extends_def)

lemma cloneNode_enter:
  assumes "\<not> pruned opts isRoot node"
  shows "\<exists>evs. trace (snd (cloneNode K node opts isRoot s)) =
           trace s @ Enter (ident (props node)) # evs"
proof -
  let ?s0 = "emit (Enter (ident (props node))) s"
  have ext: "extends ?s0 r s' \<Longrightarrow> \<exists>evs. trace s' = trace s @ Enter (ident (props node)) # evs"
    for r s' by (auto simp: extends_def)
  show ?thesis
  proof (cases rule: cloneNode_cases[of opts isRoot node K s])
    case pruned
    then show ?thesis using assms by simp
  next
    case (single_fail e s1)
    have "extends ?s0 (Some e) s1" using cloneSingleNode_extends[of ?s0 K node opts] single_fail(2) by simp
    from ext[OF this] show ?thesis using single_fail(3) by simp
  next
    case (children_fail c s1 e s2)
    have 1: "extends ?s0 None s1" using cloneSingleNode_extends[of ?s0 K node opts] children_fail(2) by simp
    have "extends s1 (Some e) s2" using trace_extends(2)[of s1 K node c opts] children_fail(3) by simp
    from ext[OF extends_trans[OF 1 this]] show ?thesis using children_fail(4) by simp
  next
    case (resolved c s1 c2 s2 s3)
    have 1: "extends ?s0 None s1" using cloneSingleNode_extends[of ?s0 K node opts] resolved(2) by simp
    have 2: "extends s1 None s2" using trace_extends(2)[of s1 K node c opts] resolved(3) by simp
    have "extends s2 None (emit (Exit (ident (props node)) c2) s3)"
      using decorate_eq(3)[OF resolved(4)] by (simp add: extends_def run_ok_def)
    from ext[OF extends_trans[OF extends_trans[OF 1 2] this]] show ?thesis using resolved(5) by simp
  qed
qed

lemma reduce_children_unchanged:
  "reduce_children K cs p opts s = (Inr (), s) \<longleftrightarrow> list_all (pruned opts None) cs"
proof
  show "list_all (pruned opts None) cs \<Longrightarrow> reduce_children K cs p opts s = (Inr (), s)"
    by (induction cs) (simp_all add: cloneNode_pruned)
next
  have grow: "length (trace s1) \<le> length (trace (snd (reduce_children K cs p opts s1)))" for s1 cs
    using trace_extends(3)[of s1 K cs p opts] by (simp add: run_extends_def extends_length)
  show "reduce_children K cs p opts s = (Inr (), s) \<Longrightarrow> list_all (pruned opts None) cs"
  proof (induction cs)
    case Nil
    then show ?case by simp
  next
    case (Cons child rest)
    show ?case
    proof (cases "pruned opts None child")
      case True
      then show ?thesis using Cons by (simp add: cloneNode_pruned)
    next
      case False
      from cloneNode_enter[OF False, of K s]
      have 1: "length (trace s) < length (trace (snd (cloneNode K child opts None s)))" by auto
      have False
      proof (cases rule: reduce_children_cases[of K child opts s rest p])
        case (child_fail e s1)
        then show ?thesis using Cons.prems by simp
      next
        case (child_null s1)
        then show ?thesis using False cloneNode_null_iff[of K child opts None s] by simp
      next
        case (child_cloned c s1)
        have "length (trace s) < length (trace (appendChild p c s1))" using 1 child_cloned(1) by simp
        then show ?thesis using grow[of "appendChild p c s1" rest] child_cloned(2) Cons.prems by simp
      qed
      then show ?thesis ..
    qed
  qed
qed

subsection \<open>The object cloneNode resolves with\<close>

lemma cloneChildren_heap:
  assumes "fst (cloneChildren K n p opts s) = Inr x" "heap s p = Some ob" "settled s p"
  shows "\<exists>cs. heap (snd (cloneChildren K n p opts s)) p = Some (ob\<lparr>children := cs\<rparr>)"
proof (cases "effective_children n = [] \<or> nodeClass (props n) = HTMLVideoElement")
  case True
  then show ?thesis using assms(2) by (auto simp: cloneChildren.simps intro: exI[of _ "children ob"])
next
  case False
  obtain r1 s1 where r: "reduce_children K (effective_children n) p opts s = (r1, s1)" by force
  then have "r1 = Inr ()" using assms(1) False by (cases r1) (simp_all add: cloneChildren.simps)
  from reduce_children_order[of K "effective_children n" p opts s "()" ob] this r assms(2,3)
  show ?thesis using False by (auto simp: cloneChildren.simps)
qed

lemma decorate_result:
  "heap s c = Some ob \<Longrightarrow> instanceof_Element (nodeClass ob) \<Longrightarrow>
     heap (snd (decorate K n c s)) c =
       Some (cloneInputValue n (clonePseudoElements K n (cloneCSSStyle K n ob)))"
  by (simp add: decorate_def Let_def)

lemma shallow_path:
  "nodeClass (props node) \<noteq> HTMLCanvasElement \<Longrightarrow>
   nodeClass (props node) \<noteq> HTMLVideoElement \<or> poster (props node) = [] \<Longrightarrow>
   cloneSingleNode K node opts s = (Inr (nxt s), snd (alloc (shallow_copy node) s))"
  by (auto simp: cloneSingleNode_def cloneNode_false_def alloc_def)

lemma cloneNode_address:
  assumes "fst (cloneNode K node opts isRoot s) = Inr (Some c)"
  shows "c = nxt s \<and> nxt s < nxt (snd (cloneNode K node opts isRoot s))"
proof (cases rule: cloneNode_cases[of opts isRoot node K s])
  case pruned
  then show ?thesis using assms by simp
next
  case (single_fail e s1)
  then show ?thesis using assms by simp
next
  case (children_fail c s1 e s2)
  then show ?thesis using assms by simp
next
  case (resolved c1 s1 c2 s2 s3)
  have c1: "c1 = nxt s" "nxt s1 = Suc (nxt s)"
    using resolved(2) by (auto elim: cloneSingleNode_cases)
  have c2: "c2 = c1" "nxt s1 \<le> nxt s2"
    using nxt_mono(2)[of s1 K node c1 opts] resolved(3) by simp_all
  show ?thesis using resolved(5) assms c1 c2 decorate_eq(2)[OF resolved(4)] by simp
qed

lemma cloneNode_final_object:
  assumes "fst (cloneNode K node opts isRoot s) = Inr (Some c)"
      and "nodeClass (props node) \<noteq> HTMLCanvasElement"
      and "nodeClass (props node) \<noteq> HTMLVideoElement \<or> poster (props node) = []"
  shows "\<exists>cs. heap (snd (cloneNode K node opts isRoot s)) c =
           Some (if instanceof_Element (nodeClass (props node))
                 then cloneInputValue node (clonePseudoElements K node
                        (cloneCSSStyle K node ((shallow_copy node)\<lparr>children := cs\<rparr>)))
                 else (shallow_copy node)\<lparr>children := cs\<rparr>)"
proof (cases rule: cloneNode_cases[of opts isRoot node K s])
  case pruned
  then show ?thesis using assms by simp
next
  case (single_fail e s1)
  then show ?thesis using assms by simp
next
  case (children_fail c s1 e s2)
  then show ?thesis using assms by simp
next
  case (resolved c1 s1 c2 s2 s3)
  let ?s0 = "emit (Enter (ident (props node))) s"
  have sp: "cloneSingleNode K node opts ?s0 = (Inr (nxt ?s0), snd (alloc (shallow_copy node) ?s0))"
    using assms(2,3) by (intro shallow_path) auto
  then have c1: "c1 = nxt s" and s1: "s1 = snd (alloc (shallow_copy node) ?s0)" using resolved(2) by simp_all
  have h1: "heap s1 c1 = Some (shallow_copy node)" using c1 s1 by simp
  have st: "settled s1 c1" using c1 s1 by (simp add: settled_def shallow_copy_def)
  have c2: "c2 = c1" using nxt_mono(2)[of s1 K node c1 opts] resolved(3) by simp
  from cloneChildren_heap[of K node c1 opts s1 c2 "shallow_copy node"] resolved(3) h1 st
  obtain cs where h2: "heap s2 c1 = Some ((shallow_copy node)\<lparr>children := cs\<rparr>)" by auto
  have k: "nodeClass ((shallow_copy node)\<lparr>children := cs\<rparr>) = nodeClass (props node)"
    by (simp add: shallow_copy_def)
  have "heap s3 c1 =
           Some (if instanceof_Element (nodeClass (props node))
                 then cloneInputValue node (clonePseudoElements K node
                        (cloneCSSStyle K node ((shallow_copy node)\<lparr>children := cs\<rparr>)))
                 else (shallow_copy node)\<lparr>children := cs\<rparr>)"
  proof (cases "instanceof_Element (nodeClass (props node))")
    case True
    then show ?thesis using decorate_result[OF h2, of K node] k resolved(4) c2 by simp
  next
    case False
    then show ?thesis using h2 k resolved(4) c2 by (auto simp: decorate_def)
  qed
  then show ?thesis using resolved(5) assms(1) c2 by auto
qed

subsection \<open>The widths of the examples, computed\<close>

lemma double_0_9: "to_double (9 / 10) = Fin (8106479329266893 / 9007199254740992)"
  by code_simp

lemma width_10_95:
  "ToString (Math_ceil
     (if js_gt (js_rem (parseFloat ''10.95px'') (Fin 1)) (to_double (9 / 10))
      then js_add (parseFloat ''10.95px'') (Fin 1) else parseFloat ''10.95px'')) = ''12''"
  by code_simp

lemma width_10_9:
  "ToString (Math_ceil
     (if js_gt (js_rem (parseFloat ''10.9px'') (Fin 1)) (to_double (9 / 10))
      then js_add (parseFloat ''10.9px'') (Fin 1) else parseFloat ''10.9px'')) = ''12''"
  by code_simp

lemma remainder_10_9:
  "js_rem (parseFloat ''10.9px'') (Fin 1) = Fin (506654958079181 / 562949953421312)"
  by code_simp

lemma width_10_5:
  "ToString (Math_ceil
     (if js_gt (js_rem (parseFloat ''10.5px'') (Fin 1)) (to_double (9 / 10))
      then js_add (parseFloat ''10.5px'') (Fin 1) else parseFloat ''10.5px'')) = ''11''"
  by code_simp

lemma width_10_89:
  "ToString (Math_ceil
     (if js_gt (js_rem (parseFloat ''10.89px'') (Fin 1)) (to_double (9 / 10))
      then js_add (parseFloat ''10.89px'') (Fin 1) else parseFloat ''10.89px'')) = ''11''"
  by code_simp

subsection \<open>When cloneChildren changes nothing\<close>

lemma cloneChildren_unchanged:
  "cloneChildren K n c opts s = (Inr c, s) \<longleftrightarrow>
     effective_children n = [] \<or> nodeClass (props n) = HTMLVideoElement \<or>
     list_all (pruned opts None) (effective_children n)"
proof (cases "effective_children n = [] \<or> nodeClass (props n) = HTMLVideoElement")
  case True
  then show ?thesis by (auto simp: cloneChildren.simps)
next
  case False
  obtain r1 s1 where r: "reduce_children K (effective_children n) c opts s = (r1, s1)" by force
  have "cloneChildren K n c opts s = (Inr c, s) \<longleftrightarrow> (r1, s1) = (Inr (), s)"
    using False r by (cases r1) (auto simp: cloneChildren.simps)
  then show ?thesis using False r reduce_children_unchanged[of K "effective_children n" c opts s]
    by simp
qed

subsection \<open>What cloneChildren appends\<close>

lemma map_filter_empty:
  "List.map_filter (\<lambda>r. r) outs = [] \<longleftrightarrow> list_all (\<lambda>r. r = None) outs"
  by (induction outs) (auto simp: List.map_filter_simps split: option.splits)

lemma list_all_map_eq:
  "map f xs = map g ys \<Longrightarrow> list_all f xs = list_all g ys"
proof -
  assume a: "map f xs = map g ys"
  have "list_all f xs = list_all (\<lambda>b. b) (map f xs)" by (simp add: list_all_iff)
  also have "\<dots> = list_all (\<lambda>b. b) (map g ys)" using a by simp
  also have "\<dots> = list_all g ys" by (simp add: list_all_iff)
  finally show ?thesis .
qed

lemma cloneChildren_appended:
  assumes "heap s c = Some ob" "settled s c" "fst (cloneChildren K n c opts s) = Inr r"
  shows "\<exists>cs. heap (snd (cloneChildren K n c opts s)) c =
              Some (ob\<lparr>children := children ob @ cs\<rparr>) \<and>
            (cs = [] \<longleftrightarrow>
               effective_children n = [] \<or> nodeClass (props n) = HTMLVideoElement \<or>
               list_all (pruned opts None) (effective_children n))"
proof (cases "effective_children n = [] \<or> nodeClass (props n) = HTMLVideoElement")
  case True
  then show ?thesis using assms(1) by (auto simp: cloneChildren.simps intro: exI[of _ "[]"])
next
  case False
  let ?cs = "effective_children n"
  obtain r1 s1 where red: "reduce_children K ?cs c opts s = (r1, s1)" by force
  then have r1: "r1 = Inr ()" using assms(3) False by (cases r1) (simp_all add: cloneChildren.simps)
  have ok: "fst (reduce_children K ?cs c opts s) = Inr ()" using red r1 by simp
  have s1: "snd (cloneChildren K n c opts s) = s1" using red r1 False by (simp add: cloneChildren.simps)
  note shape = child_clones_shape[OF ok]
  note order = reduce_children_order[OF ok assms(1,2)]
  let ?outs = "child_clones K ?cs c opts s"
  have "List.map_filter (\<lambda>r. r) ?outs = [] \<longleftrightarrow> list_all (pruned opts None) ?cs"
    using shape list_all_map_eq[of "\<lambda>r. r = None" ?outs "pruned opts None" ?cs]
    by (simp add: map_filter_empty)
  then show ?thesis using order s1 red False by (intro exI[of _ "List.map_filter (\<lambda>r. r) ?outs"]) simp
qed

lemma obj_children_same: "(ob\<lparr>children := children ob @ cs\<rparr> = ob) = (cs = [])"
proof
  assume "ob\<lparr>children := children ob @ cs\<rparr> = ob"
  then have "children (ob\<lparr>children := children ob @ cs\<rparr>) = children ob" by simp
  then show "cs = []" by simp
qed simp

subsection \<open>A recorded outcome is the collaborator's outcome\<close>

lemma all_recorded_refl [simp]: "all_recorded K opts s s"
  by (simp add: all_recorded_def)

lemma all_recorded_same: "trace s' = trace s \<Longrightarrow> all_recorded K opts s s'"
  by (simp add: all_recorded_def)

lemma all_recorded_trans:
  "all_recorded K opts s s1 \<Longrightarrow> all_recorded K opts s1 s2 \<Longrightarrow> all_recorded K opts s s2"
  unfolding all_recorded_def
  apply (elim exE conjE)
  subgoal for evs1 evs2
    by (rule exI[of _ "evs1 @ evs2"]) simp
  done

lemma all_recorded_emit: "recorded K opts ev \<Longrightarrow> all_recorded K opts s (emit ev s)"
  by (simp add: all_recorded_def)

lemma call_createImage_recorded: "all_recorded K opts s (snd (call_createImage K d s))"
proof (cases "createImage K d")
  case (Inl e)
  then show ?thesis
    by (simp add: call_createImage_def all_recorded_emit rejection_def)
next
  case (Inr img)
  have 1: "all_recorded K opts s (emit (Decode d None) s)"
    using Inr by (simp add: all_recorded_emit rejection_def)
  have "all_recorded K opts (emit (Decode d None) s) (snd (alloc img (emit (Decode d None) s)))"
    by (rule all_recorded_same) simp
  from all_recorded_trans[OF 1 this]
  show ?thesis using Inr by (auto simp add: call_createImage_def split: prod.splits)
qed

lemma cloneSingleNode_recorded: "all_recorded K opts s (snd (cloneSingleNode K node opts s))"
proof -
  have a: "all_recorded K opts s (snd (case cloneNode_false node s of (a, s1) \<Rightarrow> (Inr a, s1)))"
    by (rule all_recorded_same) (simp add: cloneNode_false_def alloc_def)
  have b: "all_recorded K opts s (snd (cloneCanvasElement K node s))"
    using a call_createImage_recorded[of K opts s] by (auto simp add: cloneCanvasElement_def Let_def)
  have c: "all_recorded K opts s (snd (cloneVideoElement K node opts s))"
  proof (cases "getBlobFromURL K (poster (props node)) opts")
    case (Inl e)
    then show ?thesis
      by (simp add: cloneVideoElement_def Let_def all_recorded_emit rejection_def)
  next
    case (Inr data)
    have "all_recorded K opts s (emit (Fetch (poster (props node)) None) s)"
      using Inr by (simp add: all_recorded_emit rejection_def)
    from all_recorded_trans[OF this call_createImage_recorded]
    show ?thesis using Inr by (simp add: cloneVideoElement_def Let_def)
  qed
  show ?thesis using a b c by (auto simp add: cloneSingleNode_def)
qed

lemma events_recorded:
  "all_recorded K opts s (snd (cloneNode K node opts isRoot s))"
  "all_recorded K opts s (snd (cloneChildren K nativeNode clonedNode opts s))"
  "all_recorded K opts s (snd (reduce_children K cs clonedNode opts s))"
proof (induction K node opts isRoot s and K nativeNode clonedNode opts s and K cs clonedNode opts s
       rule: cloneNode_cloneChildren_reduce_children.induct)
  case (1 K node opts isRoot s)
  let ?s0 = "emit (Enter (ident (props node))) s"
  have e0: "all_recorded K opts s ?s0" by (simp add: all_recorded_emit)
  have e1: "all_recorded K opts s (snd (cloneSingleNode K node opts ?s0))"
    by (rule all_recorded_trans[OF e0 cloneSingleNode_recorded])
  show ?case
  proof (cases rule: cloneNode_cases[of opts isRoot node K s])
    case pruned
    then show ?thesis by simp
  next
    case (single_fail e s1)
    then show ?thesis using e1 by simp
  next
    case (children_fail c s1 e s2)
    have e2: "all_recorded K opts s1 s2"
      using "1.IH"[OF children_fail(1)[unfolded pruned_def] children_fail(2)[symmetric] refl]
        children_fail(3) by simp
    have "all_recorded K opts s s1" using e1 children_fail(2) by simp
    from all_recorded_trans[OF this e2] show ?thesis using children_fail(4) by simp
  next
    case (resolved c s1 c2 s2 s3)
    have e2: "all_recorded K opts s1 s2"
      using "1.IH"[OF resolved(1)[unfolded pruned_def] resolved(2)[symmetric] refl]
        resolved(3) by simp
    have "all_recorded K opts s s1" using e1 resolved(2) by simp
    from all_recorded_trans[OF this e2] have e02: "all_recorded K opts s s2" .
    have "trace s3 = trace s2" using decorate_eq(3)[OF resolved(4)] .
    then have "all_recorded K opts s2 (emit (Exit (ident (props node)) c2) s3)"
      by (simp add: all_recorded_def)
    from all_recorded_trans[OF e02 this] show ?thesis using resolved(5) by simp
  qed
next
  case (2 K nativeNode clonedNode opts s)
  show ?case
  proof (cases "effective_children nativeNode = [] \<or> nodeClass (props nativeNode) = HTMLVideoElement")
    case True
    then show ?thesis by (simp add: cloneChildren.simps)
  next
    case False
    from "2.IH"[OF False] show ?thesis using False
      by (auto simp add: cloneChildren.simps split: prod.splits sum.splits)
  qed
next
  case (3 K clonedNode opts s)
  then show ?case by simp
next
  case (4 K child rest clonedNode opts s)
  show ?case
  proof (cases rule: reduce_children_cases[of K child opts s rest clonedNode])
    case (child_fail e s1)
    then show ?thesis using "4.IH"(1) by simp
  next
    case (child_null s1)
    have "all_recorded K opts s s1" using "4.IH"(1) child_null(1) by simp
    from all_recorded_trans[OF this "4.IH"(2)[OF child_null(1)[symmetric] refl, simplified]]
    show ?thesis using child_null by simp
  next
    case (child_cloned c s1)
    have 1: "all_recorded K opts s s1" using "4.IH"(1) child_cloned(1) by simp
    have "all_recorded K opts s1 (appendChild clonedNode c s1)"
      by (simp add: all_recorded_def)
    from all_recorded_trans[OF 1 this] have "all_recorded K opts s (appendChild clonedNode c s1)" .
    from all_recorded_trans[OF this "4.IH"(2)[OF child_cloned(1)[symmetric] refl, simplified]]
    show ?thesis using child_cloned by simp
  qed
qed

lemma run_ok_member:
  assumes "run_ok r evs" "ev \<in> set evs" "failure_of ev = Some e"
  shows "r = Some e"
proof (cases r)
  case None
  then show ?thesis using assms by (auto simp: run_ok_def list_all_iff)
next
  case (Some e')
  then have ne: "evs \<noteq> []" and l: "failure_of (last evs) = Some e'"
    and b: "\<forall>x\<in>set (butlast evs). failure_of x = None"
    using assms(1) by (auto simp: run_ok_def list_all_iff)
  have "ev \<in> set (butlast evs) \<or> ev = last evs"
    using assms(2) ne by (metis Un_iff append_butlast_last_id empty_iff insert_iff list.set(1) list.set(2) set_append)
  then show ?thesis using b l assms(3) Some by auto
qed

subsection \<open>Which call rejects\<close>

declare first_rejection.simps [simp del]

lemma rejection_simps [simp]: "rejection (Inl e) = Some e" "rejection (Inr x) = None"
  by (simp_all add: rejection_def)

lemma call_createImage_rejection:
  "rejection (fst (call_createImage K d s)) = rejection (createImage K d)"
  by (auto simp: call_createImage_def split: sum.splits prod.splits)

lemma cloneSingleNode_rejection:
  "rejection (fst (cloneSingleNode K node opts s)) = single_rejection K node opts"
  by (auto simp: cloneSingleNode_def cloneCanvasElement_def cloneVideoElement_def
        single_rejection_def call_createImage_rejection cloneNode_false_def js_or_def Let_def
      split: sum.splits prod.splits option.splits)

lemma rejection_is:
  "rejection (fst (cloneNode K node opts isRoot s)) = first_rejection K opts isRoot node"
  "rejection (fst (cloneChildren K nativeNode clonedNode opts s)) =
     (if nodeClass (props nativeNode) = HTMLVideoElement then None
      else first_rejection_list K opts (effective_children nativeNode))"
  "rejection (fst (reduce_children K cs clonedNode opts s)) = first_rejection_list K opts cs"
proof (induction K node opts isRoot s and K nativeNode clonedNode opts s and K cs clonedNode opts s
       rule: cloneNode_cloneChildren_reduce_children.induct)
  case (1 K node opts isRoot s)
  let ?s0 = "emit (Enter (ident (props node))) s"
  note single = cloneSingleNode_rejection[of K node opts ?s0, symmetric]
  show ?case
  proof (cases rule: cloneNode_cases[of opts isRoot node K s])
    case pruned
    then show ?thesis by (simp add: first_rejection.simps)
  next
    case (single_fail e s1)
    then show ?thesis using single by (simp add: first_rejection.simps)
  next
    case (children_fail c s1 e s2)
    note IH = "1.IH"[OF children_fail(1)[unfolded pruned_def] children_fail(2)[symmetric] refl]
    show ?thesis using children_fail single IH by (simp add: first_rejection.simps split: if_splits)
  next
    case (resolved c s1 c2 s2 s3)
    note IH = "1.IH"[OF resolved(1)[unfolded pruned_def] resolved(2)[symmetric] refl]
    show ?thesis using resolved single IH by (simp add: first_rejection.simps split: if_splits)
  qed
next
  case (2 K nativeNode clonedNode opts s)
  then show ?case
    by (auto simp add: cloneChildren.simps split: prod.splits sum.splits)
next
  case (3 K clonedNode opts s)
  then show ?case by simp
next
  case (4 K child rest clonedNode opts s)
  show ?case
  proof (cases rule: reduce_children_cases[of K child opts s rest clonedNode])
    case (child_fail e s1)
    then show ?thesis using "4.IH"(1)[symmetric] by simp
  next
    case (child_null s1)
    then show ?thesis using "4.IH"(1)[symmetric] "4.IH"(2)[OF child_null(1)[symmetric] refl] by simp
  next
    case (child_cloned c s1)
    then show ?thesis using "4.IH"(1)[symmetric] "4.IH"(2)[OF child_cloned(1)[symmetric] refl] by simp
  qed
qed

lemma first_rejection_list_append:
  "first_rejection_list K opts (xs @ ys) =
     (case first_rejection_list K opts xs of Some e \<Rightarrow> Some e | None \<Rightarrow> first_rejection_list K opts ys)"
  by (induction xs) (auto split: option.splits)


lemma rejection_Some_iff: "rejection r = Some e \<longleftrightarrow> r = Inl e"
  by (cases r) simp_all

section \<open>The claims\<close>

text \<open>
  C1. A node that is not the root (\<open>isRoot\<close> false or absent) and that a present filter
  rejects is not cloned: \<open>cloneNode\<close> resolves with null and leaves the state as it
  found it, so no descendant is visited, nothing is created and no collaborator is called;
  where such a node is a child, the run of its parent's chain is the run without it, so
  neither the node nor a descendant is in the output. The root (\<open>isRoot\<close> true) is cloned
  whatever the filter says of it: the call is the run of \<open>cloneSingleNode\<close>, then
  \<open>cloneChildren\<close>, then \<open>decorate\<close> on the node, the filter is not asked about the
  node, the result is never null, and a call that resolves does so with the address of an
  object it has created. For a root that \<open>cloneSingleNode\<close> copies (no canvas, no video
  with a poster) that object is the shallow copy of the root, with the clones of its
  children and decorated.
\<close>

theorem filter_prunes_subtree:
  "(isRoot \<noteq> Some True \<and> filter_fn opts = Some f \<and> \<not> f node \<longrightarrow>
      cloneNode K node opts isRoot s = (Inr None, s) \<and>
      new_events s (snd (cloneNode K node opts isRoot s)) = [] \<and>
      reduce_children K (before @ node # after) clonedNode opts s =
        reduce_children K (before @ after) clonedNode opts s) \<and>
   (isRoot = Some True \<longrightarrow>
      cloneNode K node opts isRoot s =
        (case cloneSingleNode K node opts (emit (Enter (ident (props node))) s) of
           (Inl e, s1) \<Rightarrow> (Inl e, s1)
         | (Inr c, s1) \<Rightarrow>
             (case cloneChildren K node c opts s1 of
                (Inl e, s2) \<Rightarrow> (Inl e, s2)
              | (Inr c2, s2) \<Rightarrow>
                  (Inr (Some c2),
                   emit (Exit (ident (props node)) c2) (snd (decorate K node c2 s2))))) \<and>
      fst (cloneNode K node opts isRoot s) \<noteq> Inr None \<and>
      take 1 (new_events s (snd (cloneNode K node opts isRoot s))) =
        [Enter (ident (props node))] \<and>
      (fst (cloneNode K node opts isRoot s) = Inr r \<longrightarrow>
         r = Some (nxt s) \<and> nxt s < nxt (snd (cloneNode K node opts isRoot s)) \<and>
         (nodeClass (props node) \<noteq> HTMLCanvasElement \<and>
          (nodeClass (props node) \<noteq> HTMLVideoElement \<or> poster (props node) = []) \<longrightarrow>
          (\<exists>cs. heap (snd (cloneNode K node opts isRoot s)) (nxt s) =
             Some (if instanceof_Element (nodeClass (props node))
                   then cloneInputValue node (clonePseudoElements K node
                          (cloneCSSStyle K node ((shallow_copy node)\<lparr>children := cs\<rparr>)))
                   else (shallow_copy node)\<lparr>children := cs\<rparr>)))))"
proof (intro conjI impI)
  assume a: "isRoot \<noteq> Some True \<and> filter_fn opts = Some f \<and> \<not> f node"
  then have "pruned opts isRoot node" by (simp add: pruned_def)
  then show "cloneNode K node opts isRoot s = (Inr None, s)" by (rule cloneNode_pruned)
  then show "new_events s (snd (cloneNode K node opts isRoot s)) = []" by simp
  from a have "pruned opts None node" by (simp add: pruned_def)
  then show "reduce_children K (before @ node # after) clonedNode opts s =
        reduce_children K (before @ after) clonedNode opts s"
    by (rule pruned_child_omitted)
next
  assume r: "isRoot = Some True"
  then have np: "\<not> pruned opts isRoot node" by (simp add: pruned_def)
  show "cloneNode K node opts isRoot s =
        (case cloneSingleNode K node opts (emit (Enter (ident (props node))) s) of
           (Inl e, s1) \<Rightarrow> (Inl e, s1)
         | (Inr c, s1) \<Rightarrow>
             (case cloneChildren K node c opts s1 of
                (Inl e, s2) \<Rightarrow> (Inl e, s2)
              | (Inr c2, s2) \<Rightarrow>
                  (Inr (Some c2),
                   emit (Exit (ident (props node)) c2) (snd (decorate K node c2 s2)))))"
    using np
    by (cases rule: cloneNode_cases[of opts isRoot node K s]) simp_all
  from np show "fst (cloneNode K node opts isRoot s) \<noteq> Inr None"
    by (simp add: cloneNode_null_iff)
  from cloneNode_enter[OF np, of K s]
  show "take 1 (new_events s (snd (cloneNode K node opts isRoot s))) =
        [Enter (ident (props node))]"
    by (auto simp: new_events_def)
next
  assume r: "isRoot = Some True" and res: "fst (cloneNode K node opts isRoot s) = Inr r"
  then have "\<not> pruned opts isRoot node" by (simp add: pruned_def)
  then obtain c where c: "r = Some c" using res cloneNode_null_iff[of K node opts isRoot s]
    by (cases r) auto
  from cloneNode_address[of K node opts isRoot s c] res c
  show "r = Some (nxt s)" "nxt s < nxt (snd (cloneNode K node opts isRoot s))" by simp_all
next
  assume r: "isRoot = Some True" and res: "fst (cloneNode K node opts isRoot s) = Inr r"
     and sh: "nodeClass (props node) \<noteq> HTMLCanvasElement \<and>
          (nodeClass (props node) \<noteq> HTMLVideoElement \<or> poster (props node) = [])"
  then have "\<not> pruned opts isRoot node" by (simp add: pruned_def)
  then obtain c where c: "r = Some c" using res cloneNode_null_iff[of K node opts isRoot s]
    by (cases r) auto
  have "c = nxt s" using cloneNode_address[of K node opts isRoot s c] res c by simp
  then show "\<exists>cs. heap (snd (cloneNode K node opts isRoot s)) (nxt s) =
             Some (if instanceof_Element (nodeClass (props node))
                   then cloneInputValue node (clonePseudoElements K node
                          (cloneCSSStyle K node ((shallow_copy node)\<lparr>children := cs\<rparr>)))
                   else (shallow_copy node)\<lparr>children := cs\<rparr>)"
    using cloneNode_final_object[of K node opts isRoot s c] res c sh by simp
qed

theorem filter_prunes_subtree_witness:
  "cloneNode example_collab (example_video ''poster.jpg'') example_options None example_store =
     (Inr None, example_store) \<and>
   reduce_children example_collab
       [example_textarea, example_video ''poster.jpg'', example_input] 4 example_options
       example_store =
     reduce_children example_collab [example_textarea, example_input] 4 example_options
       example_store \<and>
   fst (cloneNode example_collab example_input reject_all (Some True) example_store) =
     Inr (Some 4) \<and>
   take 1 (new_events example_store
     (snd (cloneNode example_collab example_input reject_all (Some True) example_store))) =
     [Enter 3] \<and>
   4 < nxt (snd (cloneNode example_collab example_input reject_all (Some True) example_store)) \<and>
   (\<exists>cs. heap (snd (cloneNode example_collab example_input reject_all (Some True)
                       example_store)) 4 =
      Some (cloneInputValue example_input (clonePseudoElements example_collab example_input
              (cloneCSSStyle example_collab example_input
                 ((shallow_copy example_input)\<lparr>children := cs\<rparr>)))))"
proof -
  have h1: "None \<noteq> Some True \<and>
            filter_fn example_options = Some (\<lambda>n. ident (props n) \<noteq> 2) \<and>
            \<not> (\<lambda>n. ident (props n) \<noteq> 2) (example_video ''poster.jpg'')"
    by (simp add: example_options_def example_video_def example_props_def)
  note t1 = filter_prunes_subtree[where isRoot = None and opts = example_options
      and f = "\<lambda>n. ident (props n) \<noteq> 2" and node = "example_video ''poster.jpg''"
      and K = example_collab and s = example_store and before = "[example_textarea]"
      and after = "[example_input]" and clonedNode = 4, THEN conjunct1, rule_format, OF h1]
  have r: "fst (cloneNode example_collab example_input reject_all (Some True) example_store) =
             Inr (Some 4)"
    by code_simp
  have k: "nodeClass (props example_input) = HTMLInputElement" "ident (props example_input) = 3"
    by (simp_all add: example_input_def example_props_def)
  have n: "nxt example_store = 4" by (simp add: example_store_def)
  note t2 = filter_prunes_subtree[where isRoot = "Some True" and opts = reject_all
      and node = example_input and K = example_collab and s = example_store
      and r = "Some 4", THEN conjunct2, rule_format, OF refl, THEN conjunct2]
  from t2 r have
    "take 1 (new_events example_store
       (snd (cloneNode example_collab example_input reject_all (Some True) example_store))) =
       [Enter 3]"
    "4 < nxt (snd (cloneNode example_collab example_input reject_all (Some True) example_store))"
    "\<exists>cs. heap (snd (cloneNode example_collab example_input reject_all (Some True)
                       example_store)) 4 =
      Some (cloneInputValue example_input (clonePseudoElements example_collab example_input
              (cloneCSSStyle example_collab example_input
                 ((shallow_copy example_input)\<lparr>children := cs\<rparr>))))"
    by (simp_all add: k n instanceof_Element_def)
  then show ?thesis using t1 r by simp
qed

text \<open>
  C2, as the spec states it for every cloned node, fails on the code: \<open>cloneChildren\<close>
  handles no child of a video. A video with one child, which no filter rejects, is cloned
  without children: the clone of the child never begins.
\<close>

theorem video_children_counterexample:
  "nodeClass (props example_player) = HTMLVideoElement \<and>
   effective_children example_player = [example_input] \<and>
   \<not> pruned no_filter None example_input \<and>
   fst (cloneNode example_collab example_player no_filter (Some True) example_store) =
     Inr (Some 4) \<and>
   map_option children
     (heap (snd (cloneNode example_collab example_player no_filter (Some True) example_store)) 4) =
     Some [] \<and>
   new_events example_store
     (snd (cloneNode example_collab example_player no_filter (Some True) example_store)) =
     [Enter 0, Exit 0 4]"
  by code_simp

text \<open>
  C2, amended. When \<open>cloneChildren\<close> resolves for a node that is no video, it has handled
  the effective children one after the other in source order. \<open>child_clones\<close> lists what
  each child resolved to: null exactly for the children the filter rejects. The children of
  the clone afterwards are those it had, followed by the clones of the children that did
  not resolve to null, in source order. Seen at the level of the children, the trace is,
  child by child in source order, the begin of the child's clone, its end and the append of
  the clone: the clone of a child begins after the append of the one before it, and
  whatever a child's own subtree does lies between its begin and its end. A child that
  resolves to null leaves no event and can be taken out of the list without any change to
  the result. For a video, \<open>cloneChildren\<close> returns the clone and leaves the state as it
  found it: no child is handled.
\<close>

theorem children_cloned_in_order:
  assumes "heap s clonedNode = Some ob" and "settled s clonedNode"
      and "cloneChildren K nativeNode clonedNode opts s = (Inr r, s')"
      and "outs = child_clones K (effective_children nativeNode) clonedNode opts s"
  shows "(nodeClass (props nativeNode) \<noteq> HTMLVideoElement \<longrightarrow>
           r = clonedNode \<and>
           length outs = length (effective_children nativeNode) \<and>
           map (\<lambda>out. out = None) outs =
             map (pruned opts None) (effective_children nativeNode) \<and>
           heap s' clonedNode =
             Some (ob\<lparr>children := children ob @ List.map_filter (\<lambda>out. out) outs\<rparr>) \<and>
           top_level 0 (new_events s s') =
             concat (map2 (child_events clonedNode) (effective_children nativeNode) outs) \<and>
           (pruned opts None child \<longrightarrow>
              reduce_children K (before @ child # after) clonedNode opts s =
              reduce_children K (before @ after) clonedNode opts s)) \<and>
         (nodeClass (props nativeNode) = HTMLVideoElement \<longrightarrow> r = clonedNode \<and> s' = s)"
proof -
  let ?cs = "effective_children nativeNode"
  have r: "r = clonedNode" using nxt_mono(2)[of s K nativeNode clonedNode opts] assms(3) by simp
  have video: "s' = s" if "nodeClass (props nativeNode) = HTMLVideoElement"
    using that assms(3) by (simp add: cloneChildren.simps)
  have last: "pruned opts None child \<longrightarrow>
            reduce_children K (before @ child # after) clonedNode opts s =
            reduce_children K (before @ after) clonedNode opts s"
    using pruned_child_omitted by blast
  have main: "length outs = length ?cs \<and>
           map (\<lambda>out. out = None) outs = map (pruned opts None) ?cs \<and>
           heap s' clonedNode =
             Some (ob\<lparr>children := children ob @ List.map_filter (\<lambda>out. out) outs\<rparr>) \<and>
           top_level 0 (new_events s s') =
             concat (map2 (child_events clonedNode) ?cs outs)"
    if nv: "nodeClass (props nativeNode) \<noteq> HTMLVideoElement"
  proof -
    obtain r1 s1 where red: "reduce_children K ?cs clonedNode opts s = (r1, s1)" by force
    have s1: "r1 = Inr () \<and> s1 = s'"
    proof (cases "?cs = []")
      case True
      then show ?thesis using red assms(3) by (auto simp: cloneChildren.simps)
    next
      case False
      then show ?thesis using red nv assms(3) by (cases r1) (auto simp: cloneChildren.simps)
    qed
    then have ok: "fst (reduce_children K ?cs clonedNode opts s) = Inr ()"
      and s': "snd (reduce_children K ?cs clonedNode opts s) = s'" using red by simp_all
    note shape = child_clones_shape[OF ok]
    note order = reduce_children_order[OF ok assms(1,2)]
    from reduce_children_top_level[OF ok] s'
    obtain evs where t: "trace s' = trace s @ evs"
      and tl: "\<And>rest. top_level 0 (evs @ rest) =
            concat (map2 (child_events clonedNode) ?cs (child_clones K ?cs clonedNode opts s)) @
            top_level 0 rest"
      by auto
    have ne: "new_events s s' = evs" using t by (simp add: new_events_def)
    show ?thesis using shape order s' tl[of "[]"] ne assms(4) by simp
  qed
  show ?thesis using r video last main by blast
qed

theorem children_cloned_in_order_witness:
  "heap (snd (alloc (shallow_copy (example_document (example_video ''poster.jpg''))) example_store)) 4
     = Some (shallow_copy (example_document (example_video ''poster.jpg''))) \<and>
   settled (snd (alloc (shallow_copy (example_document (example_video ''poster.jpg'')))
                   example_store)) 4 \<and>
   fst (cloneChildren example_collab (example_document (example_video ''poster.jpg'')) 4
          example_options
          (snd (alloc (shallow_copy (example_document (example_video ''poster.jpg'')))
                  example_store))) = Inr 4 \<and>
   child_clones example_collab
     (effective_children (example_document (example_video ''poster.jpg''))) 4 example_options
     (snd (alloc (shallow_copy (example_document (example_video ''poster.jpg''))) example_store))
     = [Some 5, None, Some 6] \<and>
   heap (snd (cloneChildren example_collab (example_document (example_video ''poster.jpg'')) 4
          example_options
          (snd (alloc (shallow_copy (example_document (example_video ''poster.jpg'')))
                  example_store)))) 4 =
     Some ((shallow_copy (example_document (example_video ''poster.jpg'')))\<lparr>children := [5, 6]\<rparr>) \<and>
   top_level 0 (new_events
       (snd (alloc (shallow_copy (example_document (example_video ''poster.jpg''))) example_store))
       (snd (cloneChildren example_collab (example_document (example_video ''poster.jpg'')) 4
          example_options
          (snd (alloc (shallow_copy (example_document (example_video ''poster.jpg'')))
                  example_store))))) =
     [Enter 1, Exit 1 5, Append 4 5, Enter 3, Exit 3 6, Append 4 6] \<and>
   nodeClass (props example_player) = HTMLVideoElement \<and>
   cloneChildren example_collab example_player 4 no_filter
       (snd (alloc (shallow_copy example_player) example_store)) =
     (Inr 4, snd (alloc (shallow_copy example_player) example_store))"
proof -
  let ?doc = "example_document (example_video ''poster.jpg'')"
  let ?s = "snd (alloc (shallow_copy ?doc) example_store)"
  let ?run = "cloneChildren example_collab ?doc 4 example_options ?s"
  have h1: "heap ?s 4 = Some (shallow_copy ?doc)" by (simp add: example_store_def)
  have h2: "settled ?s 4" by (simp add: settled_def example_store_def shallow_copy_def)
  have h3: "nodeClass (props ?doc) \<noteq> HTMLVideoElement"
    by (simp add: example_document_def example_props_def)
  have h4: "fst ?run = Inr 4" by code_simp
  then have h4': "?run = (Inr 4, snd ?run)" by (metis prod.collapse)
  have outs: "child_clones example_collab (effective_children ?doc) 4 example_options ?s
     = [Some 5, None, Some 6]" by code_simp
  have cs: "effective_children ?doc =
     [SNode (example_props 1 OtherHTMLElement ''SPAN'') [] None None,
      example_video ''poster.jpg'', example_input]"
    by (simp add: effective_children_def example_document_def isSlotElement_def example_props_def)
  have ids: "ident (props (example_video ''poster.jpg'')) = 2" "ident (props example_input) = 3"
    by (simp_all add: example_video_def example_input_def example_props_def)
  have ch: "children (shallow_copy ?doc) = []" by (simp add: shallow_copy_def)
  let ?t = "snd (alloc (shallow_copy example_player) example_store)"
  let ?skip = "cloneChildren example_collab example_player 4 no_filter ?t"
  have v1: "heap ?t 4 = Some (shallow_copy example_player)" by (simp add: example_store_def)
  have v2: "settled ?t 4" by (simp add: settled_def example_store_def shallow_copy_def)
  have v3: "nodeClass (props example_player) = HTMLVideoElement"
    by (simp add: example_player_def example_props_def)
  have v4: "fst ?skip = Inr 4" by code_simp
  then have v4': "?skip = (Inr 4, snd ?skip)" by (metis prod.collapse)
  from children_cloned_in_order[OF v1 v2 v4' refl] v3 v4'
  have skip: "?skip = (Inr 4, ?t)" by simp
  from children_cloned_in_order[OF h1 h2 h4' outs[symmetric]] h3
  show ?thesis using h1 h2 h4 outs v3 skip
    by (simp add: cs ids ch child_events_def List.map_filter_simps example_props_def)
qed

text \<open>
  C3. For a canvas node, \<open>cloneSingleNode\<close> exports the pixels. When the export is the
  empty-canvas value \<open>data:,\<close> the clone is a new shallow copy of the canvas: a canvas with
  the attributes of the source, no children and no markup, and \<open>createImage\<close> is not
  called. Otherwise the outcome is the outcome of \<open>createImage\<close> on the exported data
  URL, whatever it is: when the decode resolves, the image it returns is the one new object
  and the clone; when it rejects, the clone of the canvas rejects with the same failure and
  no object is made, no copy of the canvas in particular.
\<close>

theorem canvas_clone:
  assumes "nodeClass (props node) = HTMLCanvasElement"
      and "dataURL = toDataURL (props node)"
  shows "(dataURL = ''data:,'' \<longrightarrow>
            cloneSingleNode K node opts s = (Inr (nxt s), snd (alloc (shallow_copy node) s)) \<and>
            nodeClass (shallow_copy node) = HTMLCanvasElement \<and>
            attributes (shallow_copy node) = attributes (props node) \<and>
            children (shallow_copy node) = [] \<and> innerHTML (shallow_copy node) = None) \<and>
         (dataURL \<noteq> ''data:,'' \<longrightarrow>
            (createImage K dataURL = Inr img \<longrightarrow>
               cloneSingleNode K node opts s =
                 (Inr (nxt s), snd (alloc img (emit (Decode dataURL None) s)))) \<and>
            (createImage K dataURL = Inl e \<longrightarrow>
               cloneSingleNode K node opts s = (Inl e, emit (Decode dataURL (Some e)) s) \<and>
               heap (snd (cloneSingleNode K node opts s)) = heap s \<and>
               nxt (snd (cloneSingleNode K node opts s)) = nxt s))"
  using assms
  by (auto simp: cloneSingleNode_def cloneCanvasElement_def call_createImage_def
        cloneNode_false_def shallow_copy_def alloc_def Let_def)

theorem canvas_clone_witness:
  "nodeClass (props (example_canvas ''data:,'')) = HTMLCanvasElement \<and>
   cloneSingleNode example_collab (example_canvas ''data:,'') example_options example_store =
     (Inr 4, snd (alloc (shallow_copy (example_canvas ''data:,'')) example_store)) \<and>
   children (shallow_copy (example_canvas ''data:,'')) = [] \<and>
   cloneSingleNode example_collab (example_canvas ''data:image/png;base64,AAAA'')
       example_options example_store =
     (Inr 4,
      snd (alloc \<lparr>nodeClass = HTMLImageElement, tagName = Some ''IMG'',
                  attributes = [(''src'', ''data:image/png;base64,AAAA'')], nodeValue = None,
                  children = [], innerHTML = None\<rparr>
             (emit (Decode ''data:image/png;base64,AAAA'' None) example_store))) \<and>
   cloneSingleNode example_collab (example_canvas ''data:broken'') example_options example_store =
     (Inl (Rejected ''decode failed''),
      emit (Decode ''data:broken'' (Some (Rejected ''decode failed''))) example_store)"
proof -
  have h: "nodeClass (props (example_canvas d)) = HTMLCanvasElement" for d
    by (simp add: example_canvas_def example_props_def)
  have d: "d = toDataURL (props (example_canvas d))" for d
    by (simp add: example_canvas_def example_props_def)
  have n: "nxt example_store = 4" by (simp add: example_store_def)
  have img: "createImage example_collab ''data:image/png;base64,AAAA'' =
     Inr \<lparr>nodeClass = HTMLImageElement, tagName = Some ''IMG'',
                  attributes = [(''src'', ''data:image/png;base64,AAAA'')], nodeValue = None,
                  children = [], innerHTML = None\<rparr>"
    "createImage example_collab ''data:broken'' = Inl (Rejected ''decode failed'')"
    by (simp_all add: example_collab_def)
  show ?thesis
    using canvas_clone[OF h d[of "''data:,''"], where K = example_collab
            and opts = example_options and s = example_store]
          canvas_clone[OF h d[of "''data:image/png;base64,AAAA''"], where K = example_collab
            and opts = example_options and s = example_store]
          canvas_clone[OF h d[of "''data:broken''"], where K = example_collab
            and opts = example_options and s = example_store]
    by (simp add: h n img)
qed

text \<open>
  C4. For a video node with a non-empty poster, \<open>cloneSingleNode\<close> fetches the poster and
  decodes the data URL built from the fetched blob, with the MIME type \<open>getMimeType\<close>
  gives for the poster when it gives a non-empty one and the content type of the fetch
  otherwise. When the fetch and the decode resolve, the image \<open>createImage\<close> returns is
  the one new object and the clone. When the fetch rejects, or the decode, the clone of the
  video rejects with the same failure and no object is made, no copy of the video in
  particular. A video node with an empty poster is cloned as a shallow copy, and neither
  collaborator is called.
\<close>

theorem video_poster_clone:
  assumes "nodeClass (props node) = HTMLVideoElement"
      and "url = poster (props node)"
      and "mime = (\<lambda>contentType. case getMimeType K url of
                      None \<Rightarrow> contentType
                    | Some m \<Rightarrow> if m = [] then contentType else m)"
  shows "(url = [] \<longrightarrow>
            cloneSingleNode K node opts s = (Inr (nxt s), snd (alloc (shallow_copy node) s))) \<and>
         (url \<noteq> [] \<longrightarrow>
            (getBlobFromURL K url opts = Inl e \<longrightarrow>
               cloneSingleNode K node opts s = (Inl e, emit (Fetch url (Some e)) s)) \<and>
            (getBlobFromURL K url opts = Inr (blob, contentType) \<longrightarrow>
               (createImage K (makeDataUrl K blob (mime contentType)) = Inr img \<longrightarrow>
                  cloneSingleNode K node opts s =
                    (Inr (nxt s),
                     snd (alloc img
                       (emit (Decode (makeDataUrl K blob (mime contentType)) None)
                          (emit (Fetch url None) s))))) \<and>
               (createImage K (makeDataUrl K blob (mime contentType)) = Inl e \<longrightarrow>
                  cloneSingleNode K node opts s =
                    (Inl e,
                     emit (Decode (makeDataUrl K blob (mime contentType)) (Some e))
                       (emit (Fetch url None) s)))))"
  using assms
  by (auto simp: cloneSingleNode_def cloneVideoElement_def call_createImage_def js_or_def
        cloneNode_false_def alloc_def Let_def split: option.splits)

theorem video_poster_clone_witness:
  "nodeClass (props (example_video ''poster.jpg'')) = HTMLVideoElement \<and>
   cloneSingleNode example_collab (example_video []) example_options example_store =
     (Inr 4, snd (alloc (shallow_copy (example_video [])) example_store)) \<and>
   cloneSingleNode example_collab (example_video ''poster.jpg'') example_options example_store =
     (Inr 4,
      snd (alloc \<lparr>nodeClass = HTMLImageElement, tagName = Some ''IMG'',
                  attributes = [(''src'', ''data:image/jpeg;base64,BYTES'')],
                  nodeValue = None, children = [], innerHTML = None\<rparr>
             (emit (Decode ''data:image/jpeg;base64,BYTES'' None)
                (emit (Fetch ''poster.jpg'' None) example_store)))) \<and>
   cloneSingleNode example_collab (example_video ''other.png'') example_options example_store =
     (Inr 4,
      snd (alloc \<lparr>nodeClass = HTMLImageElement, tagName = Some ''IMG'',
                  attributes = [(''src'', ''data:image/png;base64,BYTES'')],
                  nodeValue = None, children = [], innerHTML = None\<rparr>
             (emit (Decode ''data:image/png;base64,BYTES'' None)
                (emit (Fetch ''other.png'' None) example_store)))) \<and>
   cloneSingleNode example_collab (example_video ''bad.png'') example_options example_store =
     (Inl (Rejected ''fetch failed''),
      emit (Fetch ''bad.png'' (Some (Rejected ''fetch failed''))) example_store) \<and>
   cloneSingleNode example_collab (example_video ''broken.bin'') example_options example_store =
     (Inl (Rejected ''decode failed''),
      emit (Decode ''data:broken'' (Some (Rejected ''decode failed'')))
        (emit (Fetch ''broken.bin'' None) example_store))"
proof -
  have h: "nodeClass (props (example_video p)) = HTMLVideoElement" for p
    by (simp add: example_video_def example_props_def)
  have p: "p = poster (props (example_video p))" for p
    by (simp add: example_video_def example_props_def)
  have n: "nxt example_store = 4" by (simp add: example_store_def)
  have K: "getBlobFromURL example_collab ''poster.jpg'' example_options = Inr (''BYTES'', ''image/png'')"
    "getBlobFromURL example_collab ''other.png'' example_options = Inr (''BYTES'', ''image/png'')"
    "getBlobFromURL example_collab ''bad.png'' example_options = Inl (Rejected ''fetch failed'')"
    "getBlobFromURL example_collab ''broken.bin'' example_options = Inr (''RAW'', ''broken'')"
    "getMimeType example_collab ''poster.jpg'' = Some ''image/jpeg''"
    "getMimeType example_collab ''other.png'' = None"
    "getMimeType example_collab ''broken.bin'' = None"
    "makeDataUrl example_collab ''BYTES'' ''image/jpeg'' = ''data:image/jpeg;base64,BYTES''"
    "makeDataUrl example_collab ''BYTES'' ''image/png'' = ''data:image/png;base64,BYTES''"
    "makeDataUrl example_collab ''RAW'' ''broken'' = ''data:broken''"
    "createImage example_collab ''data:image/jpeg;base64,BYTES'' =
       Inr \<lparr>nodeClass = HTMLImageElement, tagName = Some ''IMG'',
                  attributes = [(''src'', ''data:image/jpeg;base64,BYTES'')],
                  nodeValue = None, children = [], innerHTML = None\<rparr>"
    "createImage example_collab ''data:image/png;base64,BYTES'' =
       Inr \<lparr>nodeClass = HTMLImageElement, tagName = Some ''IMG'',
                  attributes = [(''src'', ''data:image/png;base64,BYTES'')],
                  nodeValue = None, children = [], innerHTML = None\<rparr>"
    "createImage example_collab ''data:broken'' = Inl (Rejected ''decode failed'')"
    by (simp_all add: example_collab_def)
  show ?thesis
    using video_poster_clone[OF h p[of "[]"] refl, where K = example_collab
            and opts = example_options and s = example_store]
          video_poster_clone[OF h p[of "''poster.jpg''"] refl, where K = example_collab
            and opts = example_options and s = example_store and blob = "''BYTES''"
            and contentType = "''image/png''"]
          video_poster_clone[OF h p[of "''other.png''"] refl, where K = example_collab
            and opts = example_options and s = example_store and blob = "''BYTES''"
            and contentType = "''image/png''"]
          video_poster_clone[OF h p[of "''bad.png''"] refl, where K = example_collab
            and opts = example_options and s = example_store]
          video_poster_clone[OF h p[of "''broken.bin''"] refl, where K = example_collab
            and opts = example_options and s = example_store and blob = "''RAW''"
            and contentType = "''broken''"]
    by (simp add: n K h)
qed

text \<open>
  C5, as the spec states it, fails on the code: the computed width \<open>10.95px\<close> of a
  paragraph has a fractional part above 0.9, so one is added before the ceiling and the
  patched width is \<open>12px\<close>, not \<open>11px\<close>. The test of the code is on doubles: for
  \<open>10.9px\<close> the remainder of the double nearest 10.9 is above the double nearest 0.9,
  and the patched width is \<open>12px\<close> as well.
\<close>

theorem width_patch_counterexample:
  "getAttribute ''style''
     (cloneCSSStyle example_collab (example_paragraph ''10.95px'')
        (shallow_copy (example_paragraph ''10.95px'')))
     = Some ''color: red;;width:12px;'' \<and>
   getAttribute ''style''
     (cloneCSSStyle example_collab (example_paragraph ''10.95px'')
        (shallow_copy (example_paragraph ''10.95px'')))
     \<noteq> Some ''color: red;;width:11px;'' \<and>
   getAttribute ''style''
     (cloneCSSStyle example_collab (example_paragraph ''10.9px'')
        (shallow_copy (example_paragraph ''10.9px'')))
     = Some ''color: red;;width:12px;''"
  by code_simp

text \<open>
  C5, amended. On a node whose tag name is \<open>P\<close> and whose computed width has a \<open>.\<close>,
  the width patch parses the width to a double \<open>x\<close>, adds one (rounding the sum to a
  double) when the remainder of \<open>x\<close> by 1 is greater than the double nearest 0.9, which
  is \<open>8106479329266893 / 2^53\<close>, takes the ceiling and appends \<open>;width:Npx;\<close> to the
  inline style; on any other node it does nothing. The computed width \<open>10.95px\<close> gives
  \<open>12px\<close>, \<open>10.9px\<close> gives \<open>12px\<close> (the remainder of the double nearest 10.9 is
  \<open>506654958079181 / 2^49\<close>, which is greater), \<open>10.5px\<close> gives \<open>11px\<close> and
  \<open>10.89px\<close> gives \<open>11px\<close>.
\<close>

theorem paragraph_width_patch:
  assumes "getPropertyValue (computedStyle (props n)) ''width'' = w"
  shows "(tagName (props n) \<noteq> Some ''P'' \<or> CHR ''.'' \<notin> set w \<longrightarrow> fix_text_wrap n c = c) \<and>
         (tagName (props n) = Some ''P'' \<longrightarrow>
            (w = ''10.95px'' \<longrightarrow> fix_text_wrap n c = append_style ''width'' ''12px'' c) \<and>
            (w = ''10.9px'' \<longrightarrow> fix_text_wrap n c = append_style ''width'' ''12px'' c) \<and>
            (w = ''10.5px'' \<longrightarrow> fix_text_wrap n c = append_style ''width'' ''11px'' c) \<and>
            (w = ''10.89px'' \<longrightarrow> fix_text_wrap n c = append_style ''width'' ''11px'' c) \<and>
            (CHR ''.'' \<in> set w \<longrightarrow> parseFloat w = Fin x \<longrightarrow>
               fix_text_wrap n c =
                 append_style ''width''
                   (ToString (Math_ceil
                      (if 8106479329266893 / 2 ^ 53 <
                            x - of_int (if 0 \<le> x then \<lfloor>x\<rfloor> else \<lceil>x\<rceil>)
                       then to_double (x + 1) else Fin x)) @ ''px'') c)) \<and>
         js_rem (parseFloat ''10.9px'') (Fin 1) = Fin (506654958079181 / 2 ^ 49) \<and>
         to_double (9 / 10) = Fin (8106479329266893 / 2 ^ 53)"
proof (intro conjI impI)
  assume "tagName (props n) \<noteq> Some ''P'' \<or> CHR ''.'' \<notin> set w"
  then show "fix_text_wrap n c = c" using assms by (auto simp: fix_text_wrap_def)
next
  assume "tagName (props n) = Some ''P''" "w = ''10.95px''"
  then show "fix_text_wrap n c = append_style ''width'' ''12px'' c"
    using assms width_10_95 by (simp add: fix_text_wrap_def Let_def)
next
  assume "tagName (props n) = Some ''P''" "w = ''10.9px''"
  then show "fix_text_wrap n c = append_style ''width'' ''12px'' c"
    using assms width_10_9 by (simp add: fix_text_wrap_def Let_def)
next
  assume "tagName (props n) = Some ''P''" "w = ''10.5px''"
  then show "fix_text_wrap n c = append_style ''width'' ''11px'' c"
    using assms width_10_5 by (simp add: fix_text_wrap_def Let_def)
next
  assume "tagName (props n) = Some ''P''" "w = ''10.89px''"
  then show "fix_text_wrap n c = append_style ''width'' ''11px'' c"
    using assms width_10_89 by (simp add: fix_text_wrap_def Let_def)
next
  assume "tagName (props n) = Some ''P''" "CHR ''.'' \<in> set w" "parseFloat w = Fin x"
  then show "fix_text_wrap n c =
                 append_style ''width''
                   (ToString (Math_ceil
                      (if 8106479329266893 / 2 ^ 53 <
                            x - of_int (if 0 \<le> x then \<lfloor>x\<rfloor> else \<lceil>x\<rceil>)
                       then to_double (x + 1) else Fin x)) @ ''px'') c"
    using assms by (simp add: fix_text_wrap_def Let_def double_0_9 js_rem_def js_gt_def js_add_def)
next
  show "js_rem (parseFloat ''10.9px'') (Fin 1) = Fin (506654958079181 / 2 ^ 49)"
    using remainder_10_9 by simp
next
  show "to_double (9 / 10) = Fin (8106479329266893 / 2 ^ 53)"
    using double_0_9 by simp
qed

theorem paragraph_width_patch_witness:
  "getPropertyValue (computedStyle (props (example_paragraph ''10.95px''))) ''width'' = ''10.95px'' \<and>
   tagName (props (example_paragraph ''10.95px'')) = Some ''P'' \<and>
   fix_text_wrap (example_paragraph ''10.95px'') (shallow_copy (example_paragraph ''10.95px'')) =
     append_style ''width'' ''12px'' (shallow_copy (example_paragraph ''10.95px'')) \<and>
   fix_text_wrap (example_paragraph ''10.9px'') (shallow_copy (example_paragraph ''10.9px'')) =
     append_style ''width'' ''12px'' (shallow_copy (example_paragraph ''10.9px'')) \<and>
   fix_text_wrap (example_paragraph ''10.89px'') (shallow_copy (example_paragraph ''10.89px'')) =
     append_style ''width'' ''11px'' (shallow_copy (example_paragraph ''10.89px'')) \<and>
   fix_text_wrap (example_paragraph ''11px'') (shallow_copy (example_paragraph ''11px'')) =
     shallow_copy (example_paragraph ''11px'') \<and>
   fix_text_wrap (example_input) (shallow_copy (example_paragraph ''10.95px'')) =
     shallow_copy (example_paragraph ''10.95px'')"
proof -
  have w: "getPropertyValue (computedStyle (props (example_paragraph v))) ''width'' = v" for v
    by (simp add: example_paragraph_def example_props_def example_style_def getPropertyValue_def)
  have t: "tagName (props (example_paragraph v)) = Some ''P''" for v
    by (simp add: example_paragraph_def example_props_def)
  have t2: "tagName (props example_input) \<noteq> Some ''P''"
    by (simp add: example_input_def example_props_def)
  show ?thesis
    using paragraph_width_patch[OF w, where c = "shallow_copy (example_paragraph ''10.95px'')"]
          paragraph_width_patch[OF w, where c = "shallow_copy (example_paragraph ''10.9px'')"]
          paragraph_width_patch[OF w, where c = "shallow_copy (example_paragraph ''10.89px'')"]
          paragraph_width_patch[OF w, where c = "shallow_copy (example_paragraph ''11px'')"]
          paragraph_width_patch[OF refl, where n = example_input
             and c = "shallow_copy (example_paragraph ''10.95px'')"]
    by (simp add: w t t2)
qed

text \<open>
  C6, as the spec states it, fails on the code: the clone also comes back unchanged, with
  no child appended, when the effective child list is not empty, the node is no video and
  the filter rejects every child.
\<close>

theorem skip_counterexample:
  "effective_children (example_document example_textarea) \<noteq> [] \<and>
   nodeClass (props (example_document example_textarea)) \<noteq> HTMLVideoElement \<and>
   cloneChildren example_collab (example_document example_textarea) 4 reject_all
       (snd (alloc (shallow_copy (example_document example_textarea)) example_store)) =
     (Inr 4, snd (alloc (shallow_copy (example_document example_textarea)) example_store))"
proof -
  have p: "pruned reject_all None x" for x by (simp add: pruned_def reject_all_def)
  have e: "effective_children (example_document example_textarea) \<noteq> []"
    by (simp add: effective_children_def example_document_def isSlotElement_def)
  have v: "nodeClass (props (example_document example_textarea)) \<noteq> HTMLVideoElement"
    by (simp add: example_document_def example_props_def)
  have "list_all (pruned reject_all None) cs" for cs by (simp add: list_all_iff p)
  then show ?thesis using e v by (simp add: cloneChildren_unchanged)
qed

text \<open>
  C6, amended. \<open>cloneChildren\<close> takes its children from exactly one source: the assigned
  nodes when the node is a slot (its tag name is \<open>SLOT\<close> in upper case, and it has
  \<open>assignedNodes\<close>), else the children of the shadow root when there is one, else the
  literal children. It returns the clone with the state unchanged when that list is empty
  or the node is a video. A call that resolves returns the clone with the children it had
  followed by the clones it has appended, and it comes back unchanged, with no child
  appended, exactly when the list is empty, the node is a video, or the filter rejects
  every child of the list.
\<close>

theorem effective_children_and_skip:
  "(isSlotElement n \<longrightarrow> assignedNodes n = Some assigned \<longrightarrow> effective_children n = assigned) \<and>
   (\<not> isSlotElement n \<or> assignedNodes n = None \<longrightarrow> shadowRoot n = Some shadow \<longrightarrow>
      effective_children n = shadow) \<and>
   (\<not> isSlotElement n \<or> assignedNodes n = None \<longrightarrow> shadowRoot n = None \<longrightarrow>
      effective_children n = childNodes n) \<and>
   (effective_children n = [] \<or> nodeClass (props n) = HTMLVideoElement \<longrightarrow>
      cloneChildren K n c opts s = (Inr c, s)) \<and>
   (cloneChildren K n c opts s = (Inr c, s) \<longleftrightarrow>
      effective_children n = [] \<or> nodeClass (props n) = HTMLVideoElement \<or>
      list_all (pruned opts None) (effective_children n)) \<and>
   (heap s c = Some ob \<longrightarrow> settled s c \<longrightarrow> fst (cloneChildren K n c opts s) = Inr r \<longrightarrow>
      r = c \<and>
      (\<exists>cs. heap (snd (cloneChildren K n c opts s)) c =
               Some (ob\<lparr>children := children ob @ cs\<rparr>) \<and>
             (cs = [] \<longleftrightarrow>
                effective_children n = [] \<or> nodeClass (props n) = HTMLVideoElement \<or>
                list_all (pruned opts None) (effective_children n))) \<and>
      (heap (snd (cloneChildren K n c opts s)) c = Some ob \<longleftrightarrow>
         effective_children n = [] \<or> nodeClass (props n) = HTMLVideoElement \<or>
         list_all (pruned opts None) (effective_children n)))"
proof -
  have 1: "cloneChildren K n c opts s = (Inr c, s) \<longleftrightarrow>
      effective_children n = [] \<or> nodeClass (props n) = HTMLVideoElement \<or>
      list_all (pruned opts None) (effective_children n)"
    by (rule cloneChildren_unchanged)
  have 2: "r = c \<and>
      (\<exists>cs. heap (snd (cloneChildren K n c opts s)) c =
               Some (ob\<lparr>children := children ob @ cs\<rparr>) \<and>
             (cs = [] \<longleftrightarrow>
                effective_children n = [] \<or> nodeClass (props n) = HTMLVideoElement \<or>
                list_all (pruned opts None) (effective_children n))) \<and>
      (heap (snd (cloneChildren K n c opts s)) c = Some ob \<longleftrightarrow>
         effective_children n = [] \<or> nodeClass (props n) = HTMLVideoElement \<or>
         list_all (pruned opts None) (effective_children n))"
    if h: "heap s c = Some ob" "settled s c" "fst (cloneChildren K n c opts s) = Inr r"
  proof -
    have r: "r = c" using nxt_mono(2)[of s K n c opts] h(3) by simp
    from cloneChildren_appended[OF h]
    obtain cs where cs: "heap (snd (cloneChildren K n c opts s)) c =
              Some (ob\<lparr>children := children ob @ cs\<rparr>)"
       "cs = [] \<longleftrightarrow>
               effective_children n = [] \<or> nodeClass (props n) = HTMLVideoElement \<or>
               list_all (pruned opts None) (effective_children n)" by blast
    have "heap (snd (cloneChildren K n c opts s)) c = Some ob \<longleftrightarrow> cs = []"
      using cs(1) by (simp add: obj_children_same)
    then show ?thesis using r cs by blast
  qed
  show ?thesis using 1 2
    by (auto simp: effective_children_def split: option.splits)
qed

theorem effective_children_and_skip_witness:
  "effective_children example_slot = [example_input] \<and>
   effective_children example_host = [example_input, example_input] \<and>
   effective_children (example_video ''poster.jpg'') = [] \<and>
   cloneChildren example_collab (example_video ''poster.jpg'') 4 example_options example_store =
     (Inr 4, example_store) \<and>
   cloneChildren example_collab example_host 4 example_options example_store \<noteq>
     (Inr 4, example_store) \<and>
   heap (snd (alloc (shallow_copy example_host) example_store)) 4 =
     Some (shallow_copy example_host) \<and>
   settled (snd (alloc (shallow_copy example_host) example_store)) 4 \<and>
   fst (cloneChildren example_collab example_host 4 example_options
          (snd (alloc (shallow_copy example_host) example_store))) = Inr 4 \<and>
   heap (snd (cloneChildren example_collab example_host 4 example_options
                (snd (alloc (shallow_copy example_host) example_store)))) 4 \<noteq>
     Some (shallow_copy example_host) \<and>
   heap (snd (cloneChildren example_collab example_host 4 reject_all
                (snd (alloc (shallow_copy example_host) example_store)))) 4 =
     Some (shallow_copy example_host)"
proof -
  let ?t = "snd (alloc (shallow_copy example_host) example_store)"
  have s: "isSlotElement example_slot" "assignedNodes example_slot = Some [example_input]"
    by code_simp (simp add: example_slot_def)
  have h: "\<not> isSlotElement example_host" "shadowRoot example_host = Some [example_input, example_input]"
    by (simp_all add: example_host_def isSlotElement_def example_props_def toUpperCase_def)
  have v: "\<not> isSlotElement (example_video ''poster.jpg'')"
    "shadowRoot (example_video ''poster.jpg'') = None"
    "childNodes (example_video ''poster.jpg'') = []"
    by (simp_all add: example_video_def isSlotElement_def example_props_def toUpperCase_def)
  have np: "\<not> pruned example_options None example_input"
    by (simp add: pruned_def example_options_def example_input_def example_props_def)
  have pr: "pruned reject_all None example_input"
    by (simp add: pruned_def reject_all_def)
  have hv: "nodeClass (props example_host) \<noteq> HTMLVideoElement"
    by (simp add: example_host_def example_props_def)
  have t1: "heap ?t 4 = Some (shallow_copy example_host)" by (simp add: example_store_def)
  have t2: "settled ?t 4" by (simp add: settled_def example_store_def shallow_copy_def)
  have t3: "fst (cloneChildren example_collab example_host 4 example_options ?t) = Inr 4"
    by code_simp
  have t4: "fst (cloneChildren example_collab example_host 4 reject_all ?t) = Inr 4"
    by code_simp
  have e: "effective_children example_host = [example_input, example_input]"
    using effective_children_and_skip[where n = example_host
            and shadow = "[example_input, example_input]"] h by simp
  have a: "heap (snd (cloneChildren example_collab example_host 4 example_options ?t)) 4 \<noteq>
             Some (shallow_copy example_host)"
    using effective_children_and_skip[where n = example_host and K = example_collab and c = 4
            and opts = example_options and s = ?t and ob = "shallow_copy example_host"
            and r = 4] t1 t2 t3
    by (simp add: e np hv)
  have b: "heap (snd (cloneChildren example_collab example_host 4 reject_all ?t)) 4 =
             Some (shallow_copy example_host)"
    using effective_children_and_skip[where n = example_host and K = example_collab and c = 4
            and opts = reject_all and s = ?t and ob = "shallow_copy example_host"
            and r = 4] t1 t2 t4
    by (simp add: e pr hv)
  have c: "effective_children example_slot = [example_input] \<and>
   effective_children (example_video ''poster.jpg'') = [] \<and>
   cloneChildren example_collab (example_video ''poster.jpg'') 4 example_options example_store =
     (Inr 4, example_store) \<and>
   cloneChildren example_collab example_host 4 example_options example_store \<noteq>
     (Inr 4, example_store)"
    using effective_children_and_skip[where n = example_slot and assigned = "[example_input]"]
          effective_children_and_skip[where n = example_host
            and shadow = "[example_input, example_input]" and K = example_collab and c = 4
            and opts = example_options and s = example_store]
          effective_children_and_skip[where n = "example_video ''poster.jpg''"
            and K = example_collab and c = 4 and opts = example_options and s = example_store]
    by (simp add: s h v np hv)
  show ?thesis using a b c e t1 t2 t3 by simp
qed

text \<open>
  C7. The text content of the clone of a textarea is to be the live value of the textarea.
  \<open>cloneInputValue\<close> assigns the live value to the \<open>innerHTML\<close> of the clone, so the
  host reads it as markup and replaces the character references in it: for a textarea into
  which \<open>1 &lt; 2\<close> has been typed, the clone \<open>cloneNode\<close> resolves with holds the text
  \<open>1 < 2\<close>, which is not the live value. The path of an input, through
  \<open>setAttribute\<close>, keeps the live value as it is.
\<close>

theorem textarea_value_parsed_as_markup:
  "currentValue (props example_typed_textarea) = ''1 &lt; 2'' \<and>
   fst (cloneNode example_collab example_typed_textarea no_filter None example_store) =
     Inr (Some 4) \<and>
   (case heap (snd (cloneNode example_collab example_typed_textarea no_filter None
                      example_store)) 4 of
      None \<Rightarrow> None
    | Some ob \<Rightarrow> textarea_text ob) = Some ''1 < 2'' \<and>
   (case heap (snd (cloneNode example_collab example_typed_textarea no_filter None
                      example_store)) 4 of
      None \<Rightarrow> None
    | Some ob \<Rightarrow> textarea_text ob) \<noteq> Some (currentValue (props example_typed_textarea)) \<and>
   (case heap (snd (cloneNode example_collab example_input no_filter None example_store)) 4 of
      None \<Rightarrow> None
    | Some ob \<Rightarrow> getAttribute ''value'' ob) = Some (currentValue (props example_input))"
  by code_simp

text \<open>
  C8. When a call of \<open>getBlobFromURL\<close> or of \<open>createImage\<close> made during the traversal
  rejects, the call of \<open>cloneNode\<close> rejects with the failure of that call, as it is:
  \<open>first_rejection\<close> names the first call that rejects, and its failure is the outcome. In
  particular a rejected decode of a canvas, a rejected fetch of a poster and a rejected
  decode of a poster reject the clone of that node, and a child whose clone rejects, when
  no child before it does, rejects the clone of its parent. A collaborator call that
  rejects is the last event of the run: nothing runs after it, and no value stands in for
  the failed fetch or decode. The trace records a rejection only where the collaborator
  rejected, and the result of a rejected call is the failure alone.
\<close>

theorem rejection_propagates:
  "(first_rejection K opts isRoot node = Some e \<longrightarrow>
      fst (cloneNode K node opts isRoot s) = Inl e) \<and>
   (\<not> pruned opts isRoot node \<longrightarrow> nodeClass (props node) = HTMLCanvasElement \<longrightarrow>
    toDataURL (props node) \<noteq> ''data:,'' \<longrightarrow>
    createImage K (toDataURL (props node)) = Inl e \<longrightarrow>
      fst (cloneNode K node opts isRoot s) = Inl e) \<and>
   (\<not> pruned opts isRoot node \<longrightarrow> nodeClass (props node) = HTMLVideoElement \<longrightarrow>
    poster (props node) \<noteq> [] \<longrightarrow>
    getBlobFromURL K (poster (props node)) opts = Inl e \<longrightarrow>
      fst (cloneNode K node opts isRoot s) = Inl e) \<and>
   (\<not> pruned opts isRoot node \<longrightarrow> nodeClass (props node) = HTMLVideoElement \<longrightarrow>
    poster (props node) \<noteq> [] \<longrightarrow>
    getBlobFromURL K (poster (props node)) opts = Inr (blob, contentType) \<longrightarrow>
    createImage K (makeDataUrl K blob
       (js_or (getMimeType K (poster (props node))) contentType)) = Inl e \<longrightarrow>
      fst (cloneNode K node opts isRoot s) = Inl e) \<and>
   (\<not> pruned opts isRoot node \<longrightarrow> nodeClass (props node) \<noteq> HTMLVideoElement \<longrightarrow>
    single_rejection K node opts = None \<longrightarrow>
    effective_children node = before @ child # after \<longrightarrow>
    first_rejection_list K opts before = None \<longrightarrow>
    fst (cloneNode K child opts None s1) = Inl e \<longrightarrow>
      fst (cloneNode K node opts isRoot s) = Inl e) \<and>
   (Fetch u (Some e) \<in> set (new_events s (snd (cloneNode K node opts isRoot s))) \<longrightarrow>
      getBlobFromURL K u opts = Inl e \<and> fst (cloneNode K node opts isRoot s) = Inl e \<and>
      last (new_events s (snd (cloneNode K node opts isRoot s))) = Fetch u (Some e)) \<and>
   (Decode d (Some e) \<in> set (new_events s (snd (cloneNode K node opts isRoot s))) \<longrightarrow>
      createImage K d = Inl e \<and> fst (cloneNode K node opts isRoot s) = Inl e \<and>
      last (new_events s (snd (cloneNode K node opts isRoot s))) = Decode d (Some e))"
proof -
  let ?r = "fst (cloneNode K node opts isRoot s)"
  let ?s' = "snd (cloneNode K node opts isRoot s)"
  have eq: "rejection ?r = first_rejection K opts isRoot node" by (rule rejection_is(1))
  have forward: "?r = Inl e" if "first_rejection K opts isRoot node = Some e"
    using that eq by (simp add: rejection_Some_iff)
  have single: "?r = Inl e"
    if "\<not> pruned opts isRoot node" "single_rejection K node opts = Some e"
    using that eq by (simp add: first_rejection.simps rejection_Some_iff)
  have canvas: "?r = Inl e"
    if "\<not> pruned opts isRoot node" "nodeClass (props node) = HTMLCanvasElement"
       "toDataURL (props node) \<noteq> ''data:,''" "createImage K (toDataURL (props node)) = Inl e"
    using that by (intro single) (simp_all add: single_rejection_def)
  have fetch: "?r = Inl e"
    if "\<not> pruned opts isRoot node" "nodeClass (props node) = HTMLVideoElement"
       "poster (props node) \<noteq> []" "getBlobFromURL K (poster (props node)) opts = Inl e"
    using that by (intro single) (simp_all add: single_rejection_def)
  have decode: "?r = Inl e"
    if "\<not> pruned opts isRoot node" "nodeClass (props node) = HTMLVideoElement"
       "poster (props node) \<noteq> []"
       "getBlobFromURL K (poster (props node)) opts = Inr (blob, contentType)"
       "createImage K (makeDataUrl K blob
          (js_or (getMimeType K (poster (props node))) contentType)) = Inl e"
    using that by (intro single) (simp_all add: single_rejection_def js_or_def)
  have child: "?r = Inl e"
    if "\<not> pruned opts isRoot node" "nodeClass (props node) \<noteq> HTMLVideoElement"
       "single_rejection K node opts = None"
       "effective_children node = before @ child # after"
       "first_rejection_list K opts before = None"
       "fst (cloneNode K child opts None s1) = Inl e"
  proof -
    have "first_rejection K opts None child = Some e"
      using rejection_is(1)[of K child opts None s1] that(6) by simp
    then have "first_rejection K opts isRoot node = Some e"
      using that(1-5) by (simp add: first_rejection.simps first_rejection_list_append)
    then show ?thesis using eq by (simp add: rejection_Some_iff)
  qed
  from trace_extends(1)[of s K node opts isRoot]
  obtain evs where t: "trace ?s' = trace s @ evs" and ok: "run_ok (rejection ?r) evs"
    by (auto simp: run_extends_def extends_def)
  have ne: "new_events s ?s' = evs" using t by (simp add: new_events_def)
  from events_recorded(1)[of K opts s node isRoot] t
  have rec: "list_all (recorded K opts) evs" by (auto simp: all_recorded_def)
  have propagate: "?r = Inl e" if "ev \<in> set evs" "failure_of ev = Some e" for ev e
    using run_ok_member[OF ok that] by (cases ?r) simp_all
  have final: "last evs = ev" if "ev \<in> set evs" "failure_of ev = Some e" for ev e
  proof -
    have r: "rejection ?r = Some e" using propagate[OF that] by simp
    then have ne: "evs \<noteq> []" and bl: "list_all (\<lambda>ev. failure_of ev = None) (butlast evs)"
      using ok by (simp_all add: run_ok_def)
    have "ev \<notin> set (butlast evs)" using bl that(2) by (auto simp: list_all_iff)
    moreover have "set evs = set (butlast evs) \<union> {last evs}"
      using ne by (metis append_butlast_last_id list.simps(15) set_append Un_insert_right
          sup_bot.right_neutral empty_set)
    ultimately show ?thesis using that(1) by auto
  qed
  have 1: "getBlobFromURL K u opts = Inl e \<and> ?r = Inl e \<and> last evs = Fetch u (Some e)"
    if "Fetch u (Some e) \<in> set evs"
  proof -
    have "recorded K opts (Fetch u (Some e))" using rec that by (auto simp: list_all_iff)
    then have "getBlobFromURL K u opts = Inl e"
      by (cases "getBlobFromURL K u opts") simp_all
    then show ?thesis using propagate[OF that] final[OF that] by simp
  qed
  have 2: "createImage K d = Inl e \<and> ?r = Inl e \<and> last evs = Decode d (Some e)"
    if "Decode d (Some e) \<in> set evs"
  proof -
    have "recorded K opts (Decode d (Some e))" using rec that by (auto simp: list_all_iff)
    then have "createImage K d = Inl e"
      by (cases "createImage K d") simp_all
    then show ?thesis using propagate[OF that] final[OF that] by simp
  qed
  show ?thesis unfolding ne using forward canvas fetch decode child 1 2 by blast
qed

theorem rejection_propagates_witness:
  "first_rejection example_collab no_filter (Some True)
     (example_document (example_canvas ''data:broken'')) = Some (Rejected ''decode failed'') \<and>
   fst (cloneNode example_collab (example_document (example_canvas ''data:broken''))
          no_filter (Some True) example_store) = Inl (Rejected ''decode failed'') \<and>
   fst (cloneNode example_collab (example_video ''bad.png'') example_options (Some True)
          example_store) = Inl (Rejected ''fetch failed'') \<and>
   fst (cloneNode example_collab (example_video ''broken.bin'') no_filter None
          example_store) = Inl (Rejected ''decode failed'') \<and>
   fst (cloneNode example_collab (example_document (example_video ''bad.png''))
          no_filter (Some True) example_store) = Inl (Rejected ''fetch failed'') \<and>
   last (new_events example_store
     (snd (cloneNode example_collab (example_document (example_video ''bad.png''))
          no_filter (Some True) example_store))) =
     Fetch ''bad.png'' (Some (Rejected ''fetch failed''))"
proof -
  let ?canvas = "example_canvas ''data:broken''"
  let ?doc = "example_document ?canvas"
  let ?vdoc = "example_document (example_video ''bad.png'')"
  have fr: "first_rejection example_collab no_filter (Some True) ?doc =
              Some (Rejected ''decode failed'')"
    by code_simp
  from rejection_propagates[where K = example_collab and node = ?doc and opts = no_filter
         and isRoot = "Some True" and s = example_store and e = "Rejected ''decode failed''",
         THEN conjunct1] fr
  have a: "fst (cloneNode example_collab ?doc no_filter (Some True) example_store) =
             Inl (Rejected ''decode failed'')"
    by simp
  have np: "\<not> pruned example_options (Some True) (example_video p)"
           "\<not> pruned no_filter r n" for p r n
    by (simp_all add: pruned_def no_filter_def)
  have v: "nodeClass (props (example_video p)) = HTMLVideoElement"
          "poster (props (example_video p)) = p" for p
    by (simp_all add: example_video_def example_props_def)
  have K: "getBlobFromURL example_collab ''bad.png'' opts = Inl (Rejected ''fetch failed'')"
    "getBlobFromURL example_collab ''broken.bin'' opts = Inr (''RAW'', ''broken'')"
    "createImage example_collab (makeDataUrl example_collab ''RAW''
       (js_or (getMimeType example_collab ''broken.bin'') ''broken'')) =
         Inl (Rejected ''decode failed'')" for opts
    by (simp_all add: example_collab_def js_or_def)
  from rejection_propagates[where K = example_collab and node = "example_video ''bad.png''"
         and opts = example_options and isRoot = "Some True" and s = example_store
         and e = "Rejected ''fetch failed''", THEN conjunct2, THEN conjunct2, THEN conjunct1]
  have b: "fst (cloneNode example_collab (example_video ''bad.png'') example_options (Some True)
          example_store) = Inl (Rejected ''fetch failed'')"
    by (simp add: np v K)
  from rejection_propagates[where K = example_collab and node = "example_video ''broken.bin''"
         and opts = no_filter and isRoot = None and s = example_store
         and e = "Rejected ''decode failed''" and blob = "''RAW''" and contentType = "''broken''",
         THEN conjunct2, THEN conjunct2, THEN conjunct2, THEN conjunct1]
  have c: "fst (cloneNode example_collab (example_video ''broken.bin'') no_filter None
          example_store) = Inl (Rejected ''decode failed'')"
    by (simp add: np v K)
  have d1: "nodeClass (props ?vdoc) \<noteq> HTMLVideoElement"
    by (simp add: example_document_def example_props_def)
  have d2: "single_rejection example_collab ?vdoc no_filter = None"
    by (simp add: single_rejection_def example_document_def example_props_def)
  have d3: "effective_children ?vdoc =
     [SNode (example_props 1 OtherHTMLElement ''SPAN'') [] None None] @
       example_video ''bad.png'' # [example_input]"
    by (simp add: effective_children_def example_document_def isSlotElement_def example_props_def)
  have d4: "first_rejection_list example_collab no_filter
              [SNode (example_props 1 OtherHTMLElement ''SPAN'') [] None None] = None"
    by code_simp
  have d5: "fst (cloneNode example_collab (example_video ''bad.png'') no_filter None s1) =
              Inl (Rejected ''fetch failed'')" for s1
    using rejection_propagates[where K = example_collab and node = "example_video ''bad.png''"
         and opts = no_filter and isRoot = None and s = s1
         and e = "Rejected ''fetch failed''", THEN conjunct2, THEN conjunct2, THEN conjunct1]
    by (simp add: np v K)
  from rejection_propagates[where K = example_collab and node = ?vdoc
         and opts = no_filter and isRoot = "Some True" and s = example_store
         and e = "Rejected ''fetch failed''"
         and before = "[SNode (example_props 1 OtherHTMLElement ''SPAN'') [] None None]"
         and child = "example_video ''bad.png''" and after = "[example_input]"
         and ?s1.0 = example_store,
         THEN conjunct2, THEN conjunct2, THEN conjunct2, THEN conjunct2, THEN conjunct1]
  have d: "fst (cloneNode example_collab ?vdoc no_filter (Some True) example_store) =
             Inl (Rejected ''fetch failed'')"
    using np(2) d1 d2 d3 d4 d5 by simp
  have m: "Fetch ''bad.png'' (Some (Rejected ''fetch failed'')) \<in>
     set (new_events example_store
       (snd (cloneNode example_collab ?vdoc no_filter (Some True) example_store)))"
    by code_simp
  from rejection_propagates[where K = example_collab and node = ?vdoc
         and opts = no_filter and isRoot = "Some True" and s = example_store
         and e = "Rejected ''fetch failed''" and u = "''bad.png''",
         THEN conjunct2, THEN conjunct2, THEN conjunct2, THEN conjunct2, THEN conjunct2,
         THEN conjunct1] m
  have l: "last (new_events example_store
     (snd (cloneNode example_collab ?vdoc no_filter (Some True) example_store))) =
     Fetch ''bad.png'' (Some (Rejected ''fetch failed''))"
    by simp
  show ?thesis using fr a b c d l by simp
qed

text \<open>
  C9. \<open>cloneNode\<close> leaves every object that existed before the call as it was, whether
  the call resolves or rejects: an object at an address below \<open>nxt\<close> whose children are
  themselves below \<open>nxt\<close> (every node of the live document is one) is the same object
  afterwards. All the writes of the operation (attributes, inline style, markup, appended
  children) go to objects it has created; a source node is only read.
\<close>

theorem source_tree_not_mutated:
  assumes "settled s a"
  shows "heap (snd (cloneNode K node opts isRoot s)) a = heap s a"
  using assms by (rule frame(1))

theorem source_tree_not_mutated_witness:
  "settled example_store 0 \<and> settled example_store 3 \<and>
   heap (snd (cloneNode example_collab (example_document (example_video ''poster.jpg''))
                no_filter (Some True) example_store)) 0 = heap example_store 0 \<and>
   heap (snd (cloneNode example_collab (example_document (example_video ''bad.png''))
                no_filter (Some True) example_store)) 3 = heap example_store 3"
proof -
  have s: "settled example_store 0" "settled example_store 3"
    by (simp_all add: settled_def example_store_def)
  show ?thesis
    using source_tree_not_mutated[OF s(1), of example_collab
            "example_document (example_video ''poster.jpg'')" no_filter "Some True"]
          source_tree_not_mutated[OF s(2), of example_collab
            "example_document (example_video ''bad.png'')" no_filter "Some True"]
          s
    by simp
qed

text \<open>
  C10. With \<open>isRoot\<close> left out the node counts as no root: a node the filter rejects is
  answered with null, also in the outermost call. For a node the filter rejects, the
  result is something other than null exactly when \<open>isRoot\<close> is passed as true.
\<close>

theorem omitted_isRoot_is_not_root:
  "(filter_fn opts = Some f \<and> \<not> f node \<longrightarrow>
      cloneNode K node opts None s = (Inr None, s)) \<and>
   (filter_fn opts = Some f \<and> \<not> f node \<longrightarrow>
      (fst (cloneNode K node opts isRoot s) \<noteq> Inr None \<longleftrightarrow> isRoot = Some True))"
  by (auto simp: cloneNode_null_iff pruned_def cloneNode_pruned)

theorem omitted_isRoot_is_not_root_witness:
  "cloneNode example_collab (example_document example_textarea) reject_all None example_store =
     (Inr None, example_store) \<and>
   fst (cloneNode example_collab (example_document example_textarea) reject_all (Some False)
          example_store) = Inr None \<and>
   fst (cloneNode example_collab (example_document example_textarea) reject_all (Some True)
          example_store) \<noteq> Inr None"
  using omitted_isRoot_is_not_root[of reject_all "\<lambda>n. False"
          "example_document example_textarea" example_collab example_store "Some False"]
        omitted_isRoot_is_not_root[of reject_all "\<lambda>n. False"
          "example_document example_textarea" example_collab example_store "Some True"]
  by (simp add: reject_all_def)

end
